theory Spec2Isabelle
  imports Main "HOL-Library.Sublist"
begin

section \<open>Data model of \<open>canvas_scraper.py\<close>\<close>

text \<open>
  A Python string is modelled as a list of characters with codes below 256; what the code
  does to characters beyond that range is outside this model.

  Paths are \<open>pathlib.Path\<close> values, modelled as the list of their components;
  \<open>p / name\<close> appends one component, \<open>p.parent\<close> drops the last one and \<open>str(p)\<close>
  joins the components with \<open>/\<close>.
\<close>

type_synonym path = "string list"

definition path_join :: "path \<Rightarrow> string \<Rightarrow> path" where
  "path_join p name = p @ [name]"

definition parent :: "path \<Rightarrow> path" where
  "parent p = butlast p"

text \<open>\<open>sep.join(xs)\<close>.\<close>

fun str_join :: "string \<Rightarrow> string list \<Rightarrow> string" where
  "str_join sep [] = []"
| "str_join sep [x] = x"
| "str_join sep (x # y # ys) = x @ sep @ str_join sep (y # ys)"

definition path_str :: "path \<Rightarrow> string" where
  "path_str p = (if p = [] then ''.'' else str_join ''/'' p)"

text \<open>
  \<open>os.path.relpath(target, start)\<close> for two normalised paths below the same working
  directory: drop the common prefix, climb out of what is left of \<open>start\<close>.
\<close>

fun relpath :: "path \<Rightarrow> path \<Rightarrow> path" where
  "relpath (x # xs) (y # ys) = (if x = y then relpath xs ys else replicate (Suc (length ys)) ''..'' @ (x # xs))"
| "relpath xs ys = replicate (length ys) ''..'' @ xs"

text \<open>The exceptions the code distinguishes in its \<open>except\<close> clauses.\<close>

datatype exn = ResourceDoesNotExist | Forbidden | Unauthorized | ValueError | OtherException

text \<open>
  A \<open>canvasapi\<close> file handle: its \<open>id\<close>, its \<open>display_name\<close>, and what its
  \<open>download\<close> method does when called (\<open>None\<close>: the file is written;
  \<open>Some e\<close>: it raises \<open>e\<close> and writes nothing).
\<close>

record canvas_file =
  cf_id :: int
  display_name :: string
  download_error :: "exn option"

datatype log_level = DEBUG | INFO | WARNING | ERROR

text \<open>One constructor per \<open>logger\<close> call of the modelled functions, with the values it formats.\<close>

datatype log_msg =
    AlreadyProcessed string int           \<comment> \<open>line 57\<close>
  | Downloading string path               \<comment> \<open>line 65\<close>
  | FailedToDownload string int exn       \<comment> \<open>line 70\<close>
  | CouldNotFindFileId int                \<comment> \<open>line 117\<close>
  | EmbeddedNotFound string               \<comment> \<open>line 161\<close>
  | InvalidFileIdFormat string            \<comment> \<open>line 163\<close>
  | ErrorProcessingEmbedded string exn    \<comment> \<open>line 165\<close>
  | ProcessingItem "string option" string \<comment> \<open>line 178\<close>
  | UnsupportedItemType string "string option" \<comment> \<open>line 262\<close>
  | ResourceNotFound "string option"      \<comment> \<open>line 265\<close>
  | AccessForbidden "string option"       \<comment> \<open>line 268\<close>
  | ErrorProcessingItem "string option" exn \<comment> \<open>line 271\<close>
  | ProcessingModule "string option"      \<comment> \<open>line 280\<close>
  | CouldNotRetrieveItems "string option" exn \<comment> \<open>line 289\<close>
  | FinishedModule "string option" path   \<comment> \<open>line 303\<close>
  | StartingCourse "string option" int    \<comment> \<open>line 309\<close>
  | UnauthorizedModules "string option"   \<comment> \<open>line 323\<close>
  | ForbiddenModules "string option"      \<comment> \<open>line 325\<close>
  | UnexpectedModulesError "string option" exn \<comment> \<open>line 327\<close>
  | FinishedCourse "string option"        \<comment> \<open>line 329\<close>
  | FailedToProcessCourse int exn         \<comment> \<open>line 409\<close>

text \<open>
  The effects on the outside world, in the order they happen: a logger call, a
  \<open>Path.mkdir(parents=True, exist_ok=True)\<close>, a call of a file handle's
  \<open>download\<close> method (with the handle's id, the target path and whether the file was
  written), and the writing of a text file.
\<close>

datatype event =
    Log log_level log_msg
  | Mkdir path
  | Download int path bool
  | WriteFile path string

text \<open>
  The program state: the module-level set \<open>DOWNLOADED_FILE_IDS_GLOBAL\<close>, the files and
  directories present on disk, and the trace of effects so far.
\<close>

record state =
  DOWNLOADED_FILE_IDS_GLOBAL :: "int set"
  fs_files :: "path set"
  fs_dirs :: "path set"
  trace :: "event list"

definition emit :: "event \<Rightarrow> state \<Rightarrow> state" where
  "emit e s = s\<lparr>trace := trace s @ [e]\<rparr>"

definition logger :: "log_level \<Rightarrow> log_msg \<Rightarrow> state \<Rightarrow> state" where
  "logger lvl m s = emit (Log lvl m) s"

definition mkdir :: "path \<Rightarrow> state \<Rightarrow> state" where
  "mkdir p s = emit (Mkdir p) (s\<lparr>fs_dirs := fs_dirs s \<union> set (prefixes p)\<rparr>)"

text \<open>
  The library functions the code calls and this development does not look into:
  \<open>pathvalidate.sanitize_filename\<close>, \<open>html2text.html2text\<close> and the configured
  \<open>HTML2Text().handle\<close> of \<open>convert_html_to_markdown\<close>.
\<close>

record externals =
  sanitize_filename :: "string \<Rightarrow> string"
  html2text :: "string \<Rightarrow> string"
  handle_html :: "string \<Rightarrow> string"

section \<open>The asset fetcher: \<open>download_canvas_file_object\<close>\<close>

text \<open>
  The parameters \<open>course\<close> and \<open>canvas\<close> of the source are not used by its body and are
  left out.
\<close>

definition download_canvas_file_object ::
  "externals \<Rightarrow> canvas_file \<Rightarrow> path \<Rightarrow> state \<Rightarrow> path option \<times> state" where
  "download_canvas_file_object ext canvas_file_obj target_dir s =
     (if cf_id canvas_file_obj \<in> DOWNLOADED_FILE_IDS_GLOBAL s then
        (Some (path_join target_dir (sanitize_filename ext (display_name canvas_file_obj))),
         logger DEBUG (AlreadyProcessed (display_name canvas_file_obj) (cf_id canvas_file_obj)) s)
      else
        let sanitized_filename_str = sanitize_filename ext (display_name canvas_file_obj);
            file_path = path_join target_dir sanitized_filename_str;
            s1 = logger INFO (Downloading (display_name canvas_file_obj) file_path) s
        in (case download_error canvas_file_obj of
              None \<Rightarrow>
                let s2 = emit (Download (cf_id canvas_file_obj) file_path True)
                           (s1\<lparr>fs_files := insert file_path (fs_files s1)\<rparr>);
                    s3 = s2\<lparr>DOWNLOADED_FILE_IDS_GLOBAL :=
                               insert (cf_id canvas_file_obj) (DOWNLOADED_FILE_IDS_GLOBAL s2)\<rparr>
                in (Some file_path, s3)
            | Some e \<Rightarrow>
                let s2 = emit (Download (cf_id canvas_file_obj) file_path False) s1
                in (None, logger ERROR
                      (FailedToDownload (display_name canvas_file_obj) (cf_id canvas_file_obj) e) s2)))"

text \<open>The \<open>download\<close> calls recorded in a trace, and those that wrote their file.\<close>

fun download_calls :: "event list \<Rightarrow> (int \<times> path) list" where
  "download_calls [] = []"
| "download_calls (Download i p ok # es) = (i, p) # download_calls es"
| "download_calls (e # es) = download_calls es"

fun downloaded :: "event list \<Rightarrow> (int \<times> path) list" where
  "downloaded [] = []"
| "downloaded (Download i p ok # es) = (if ok then (i, p) # downloaded es else downloaded es)"
| "downloaded (e # es) = downloaded es"

section \<open>The regular expressions of the link rewriter\<close>

text \<open>
  The fragment of Python's \<open>re\<close> that the patterns of the source use, as a
  backtracking matcher. A character set is one of \<open>x\<close>, \<open>.\<close> (under \<open>re.DOTALL\<close>),
  \<open>[^...]\<close> and \<open>\d\<close> (below 256 the decimal digits are the ASCII ones).
\<close>

datatype charset = Exactly char | AnyChar | NoneOf "char list" | Digit

datatype regex =
    Lit string           \<comment> \<open>literal text\<close>
  | One charset          \<comment> \<open>one character of the set\<close>
  | Star charset         \<comment> \<open>greedy \<open>*\<close> on a character set\<close>
  | LazyStar charset     \<comment> \<open>non-greedy \<open>*?\<close> on a character set\<close>
  | Opt regex            \<comment> \<open>greedy \<open>(?:r)?\<close>\<close>
  | Alt regex regex      \<comment> \<open>\<open>r1|r2\<close>\<close>
  | Seq regex regex      \<comment> \<open>\<open>r1r2\<close>\<close>
  | Group nat regex      \<comment> \<open>capturing group number \<open>n\<close>\<close>

definition cat :: "regex list \<Rightarrow> regex" where
  "cat rs = foldr Seq rs (Lit [])"

definition Plus :: "charset \<Rightarrow> regex" where
  "Plus cs = Seq (One cs) (Star cs)"

text \<open>
  \<open>re.IGNORECASE\<close>: the literals of the patterns hold ASCII letters only, which are
  compared by their lower-case form.
\<close>

definition lower :: "char \<Rightarrow> char" where
  "lower c = (case map_of (zip ''ABCDEFGHIJKLMNOPQRSTUVWXYZ'' ''abcdefghijklmnopqrstuvwxyz'') c of
                None \<Rightarrow> c | Some l \<Rightarrow> l)"

definition is_digit :: "char \<Rightarrow> bool" where
  "is_digit c = (c \<in> set ''0123456789'')"

fun in_charset :: "bool \<Rightarrow> charset \<Rightarrow> char \<Rightarrow> bool" where
  "in_charset ic (Exactly x) c = (if ic then lower c = lower x else c = x)"
| "in_charset ic AnyChar c = True"
| "in_charset ic (NoneOf xs) c = (if ic then lower c \<notin> lower ` set xs else c \<notin> set xs)"
| "in_charset ic Digit c = is_digit c"

fun lit_prefix :: "bool \<Rightarrow> string \<Rightarrow> string \<Rightarrow> bool" where
  "lit_prefix ic [] s = True"
| "lit_prefix ic (x # xs) [] = False"
| "lit_prefix ic (x # xs) (c # s) = (in_charset ic (Exactly x) c \<and> lit_prefix ic xs s)"

text \<open>
  The remainders a starred character set can leave, in the order the backtracking
  matcher tries them: longest run first when greedy, shortest first when lazy.
\<close>

fun star_greedy :: "bool \<Rightarrow> charset \<Rightarrow> string \<Rightarrow> string list" where
  "star_greedy ic cs [] = [[]]"
| "star_greedy ic cs (c # s) = (if in_charset ic cs c then star_greedy ic cs s @ [c # s] else [c # s])"

fun star_lazy :: "bool \<Rightarrow> charset \<Rightarrow> string \<Rightarrow> string list" where
  "star_lazy ic cs [] = [[]]"
| "star_lazy ic cs (c # s) = (if in_charset ic cs c then (c # s) # star_lazy ic cs s else [c # s])"

type_synonym captures = "(nat \<times> string) list"

text \<open>
  All the ways \<open>r\<close> matches a prefix of \<open>s\<close>, each with its captures and the rest of the
  string, in the order of Python's backtracking; the head of the list is the match that
  \<open>re\<close> reports.
\<close>

fun rmatch :: "bool \<Rightarrow> regex \<Rightarrow> string \<Rightarrow> captures \<Rightarrow> (captures \<times> string) list" where
  "rmatch ic (Lit l) s caps = (if lit_prefix ic l s then [(caps, drop (length l) s)] else [])"
| "rmatch ic (One cs) s caps =
     (case s of [] \<Rightarrow> [] | c # s' \<Rightarrow> if in_charset ic cs c then [(caps, s')] else [])"
| "rmatch ic (Star cs) s caps = map (Pair caps) (star_greedy ic cs s)"
| "rmatch ic (LazyStar cs) s caps = map (Pair caps) (star_lazy ic cs s)"
| "rmatch ic (Opt r) s caps = rmatch ic r s caps @ [(caps, s)]"
| "rmatch ic (Alt r1 r2) s caps = rmatch ic r1 s caps @ rmatch ic r2 s caps"
| "rmatch ic (Seq r1 r2) s caps =
     concat (map (\<lambda>m. rmatch ic r2 (snd m) (fst m)) (rmatch ic r1 s caps))"
| "rmatch ic (Group n r) s caps =
     map (\<lambda>m. ((n, take (length s - length (snd m)) s) # fst m, snd m)) (rmatch ic r s caps)"

text \<open>
  A match at the start of \<open>s\<close>: its captures, with the whole match as group 0, and its
  length.
\<close>

definition match_here :: "bool \<Rightarrow> regex \<Rightarrow> string \<Rightarrow> (captures \<times> nat) option" where
  "match_here ic r s =
     (case rmatch ic r s [] of
        [] \<Rightarrow> None
      | m # _ \<Rightarrow> Some ((0, take (length s - length (snd m)) s) # fst m, length s - length (snd m)))"

text \<open>\<open>pattern.search(s)\<close>: the captures of the leftmost match, if any.\<close>

fun search :: "bool \<Rightarrow> regex \<Rightarrow> string \<Rightarrow> captures option" where
  "search ic r [] = map_option fst (match_here ic r [])"
| "search ic r (c # s) =
     (case match_here ic r (c # s) of Some m \<Rightarrow> Some (fst m) | None \<Rightarrow> search ic r s)"

text \<open>
  \<open>pattern.finditer(s)\<close>: the captures of the non-overlapping matches from left to
  right. The counter is the number of characters of the string still covered by the
  previous match.
\<close>

fun finditer_from :: "bool \<Rightarrow> regex \<Rightarrow> nat \<Rightarrow> string \<Rightarrow> captures list" where
  "finditer_from ic r k [] =
     (case match_here ic r [] of None \<Rightarrow> [] | Some m \<Rightarrow> [fst m])"
| "finditer_from ic r (Suc k) (c # s) = finditer_from ic r k s"
| "finditer_from ic r 0 (c # s) =
     (case match_here ic r (c # s) of
        None \<Rightarrow> finditer_from ic r 0 s
      | Some m \<Rightarrow> fst m # finditer_from ic r (snd m - 1) s)"

definition finditer :: "bool \<Rightarrow> regex \<Rightarrow> string \<Rightarrow> captures list" where
  "finditer ic r s = finditer_from ic r 0 s"

definition group :: "captures \<Rightarrow> nat \<Rightarrow> string" where
  "group caps n = (case map_of caps n of None \<Rightarrow> [] | Some g \<Rightarrow> g)"

text \<open>
  \<open>pattern.sub(template, s)\<close>. The template string is first parsed into group
  references and literal text, as \<open>parse_template\<close> of the \<open>re\<close> module does it (Python
  3.12), for a pattern with \<open>g\<close> groups none of which is named. A backslash followed by
  \<open>g<number>\<close>, or by one or two digits, is a group reference; followed by \<open>0\<close>, or by
  three octal digits, it is the character with that code; followed by one of
  \<open>a b f n r t v\<close> or a backslash, it is the usual escape; followed by another ASCII
  letter, or at the end of the string, it is an error, as is a reference to a group the
  pattern does not have. Every error is an exception, which the caller sees as
  \<open>OtherException\<close>.
\<close>

datatype tpart = GroupRef nat | Text string

definition backslash :: char where
  "backslash = CHR 0x5C"

definition is_octdigit :: "char \<Rightarrow> bool" where
  "is_octdigit c = (c \<in> set ''01234567'')"

definition is_ascii_letter :: "char \<Rightarrow> bool" where
  "is_ascii_letter c = (c \<in> set ''abcdefghijklmnopqrstuvwxyzABCDEFGHIJKLMNOPQRSTUVWXYZ'')"

definition escape_char :: "char \<Rightarrow> char option" where
  "escape_char c =
     map_of [(CHR ''a'', CHR 0x07), (CHR ''b'', CHR 0x08), (CHR ''f'', CHR 0x0C),
             (CHR ''n'', CHR 0x0A), (CHR ''r'', CHR 0x0D), (CHR ''t'', CHR 0x09),
             (CHR ''v'', CHR 0x0B), (CHR 0x5C, CHR 0x5C)] c"

definition digit_nat :: "char \<Rightarrow> nat" where
  "digit_nat c =
     (case map_of [(CHR ''0'', 0), (CHR ''1'', 1), (CHR ''2'', 2), (CHR ''3'', 3), (CHR ''4'', 4),
                   (CHR ''5'', 5), (CHR ''6'', 6), (CHR ''7'', 7), (CHR ''8'', 8), (CHR ''9'', 9)] c of
        None \<Rightarrow> 0 | Some d \<Rightarrow> d)"

definition number :: "nat \<Rightarrow> string \<Rightarrow> nat" where
  "number base ds = foldl (\<lambda>a c. base * a + digit_nat c) 0 ds"

definition add_part :: "tpart \<Rightarrow> exn + tpart list \<Rightarrow> exn + tpart list" where
  "add_part t r = (case r of Inl e \<Rightarrow> Inl e | Inr ts \<Rightarrow> Inr (t # ts))"

definition add_group :: "nat \<Rightarrow> nat \<Rightarrow> exn + tpart list \<Rightarrow> exn + tpart list" where
  "add_group g index r = (if index > g then Inl OtherException else add_part (GroupRef index) r)"

fun parse_template :: "nat \<Rightarrow> string \<Rightarrow> exn + tpart list"
  and group_name :: "nat \<Rightarrow> string \<Rightarrow> string \<Rightarrow> exn + tpart list" where
  "parse_template g [] = Inr []"
| "parse_template g [c] = (if c = backslash then Inl OtherException else Inr [Text [c]])"
| "parse_template g (c # d # s) =
     (if c \<noteq> backslash then add_part (Text [c]) (parse_template g (d # s))
      else if d = CHR ''g'' then
        (case s of
           [] \<Rightarrow> Inl OtherException
         | lt # s' \<Rightarrow> if lt = CHR ''<'' then group_name g [] s' else Inl OtherException)
      else if d = CHR ''0'' then
        (case s of
           [] \<Rightarrow> Inr [Text [CHR 0x00]]
         | e # s' \<Rightarrow>
             if is_octdigit e then
               (case s' of
                  [] \<Rightarrow> Inr [Text [char_of (number 8 [e])]]
                | f # s'' \<Rightarrow>
                    if is_octdigit f
                    then add_part (Text [char_of (number 8 [e, f])]) (parse_template g s'')
                    else add_part (Text [char_of (number 8 [e])]) (parse_template g (f # s'')))
             else add_part (Text [CHR 0x00]) (parse_template g (e # s')))
      else if is_digit d then
        (case s of
           [] \<Rightarrow> add_group g (number 10 [d]) (Inr [])
         | e # s' \<Rightarrow>
             if is_digit e then
               (case s' of
                  [] \<Rightarrow> add_group g (number 10 [d, e]) (Inr [])
                | f # s'' \<Rightarrow>
                    if is_octdigit d \<and> is_octdigit e \<and> is_octdigit f then
                      (if number 8 [d, e, f] > 255 then Inl OtherException
                       else add_part (Text [char_of (number 8 [d, e, f])]) (parse_template g s''))
                    else add_group g (number 10 [d, e]) (parse_template g (f # s'')))
             else add_group g (number 10 [d]) (parse_template g (e # s')))
      else
        (case escape_char d of
           Some x \<Rightarrow> add_part (Text [x]) (parse_template g s)
         | None \<Rightarrow>
             if is_ascii_letter d then Inl OtherException
             else add_part (Text [c, d]) (parse_template g s)))"
| "group_name g name [] = Inl OtherException"
| "group_name g name (c # s) =
     (if c = CHR ''>'' then
        (if name \<noteq> [] \<and> list_all is_digit name
         then add_group g (number 10 name) (parse_template g s)
         else Inl OtherException)
      else group_name g (name @ [c]) s)"

fun expand :: "tpart list \<Rightarrow> captures \<Rightarrow> string" where
  "expand [] caps = []"
| "expand (GroupRef n # ts) caps = group caps n @ expand ts caps"
| "expand (Text t # ts) caps = t @ expand ts caps"

fun sub_from :: "bool \<Rightarrow> regex \<Rightarrow> tpart list \<Rightarrow> nat \<Rightarrow> string \<Rightarrow> string" where
  "sub_from ic r t k [] =
     (case match_here ic r [] of None \<Rightarrow> [] | Some m \<Rightarrow> expand t (fst m))"
| "sub_from ic r t (Suc k) (c # s) = sub_from ic r t k s"
| "sub_from ic r t 0 (c # s) =
     (case match_here ic r (c # s) of
        None \<Rightarrow> c # sub_from ic r t 0 s
      | Some m \<Rightarrow>
          if snd m = 0 then expand t (fst m) @ c # sub_from ic r t 0 s
          else expand t (fst m) @ sub_from ic r t (snd m - 1) s)"

definition sub :: "bool \<Rightarrow> regex \<Rightarrow> tpart list \<Rightarrow> string \<Rightarrow> string" where
  "sub ic r t s = sub_from ic r t 0 s"

text \<open>The patterns of \<open>extract_and_download_embedded_files\<close>, lines 97, 137, 143 and 153.\<close>

definition file_id_pattern :: regex where
  "file_id_pattern =
     cat [Lit ''/files/'', Group 1 (Plus Digit),
          Opt (cat [Lit ''/'', Alt (Lit ''download'') (Lit ''preview''),
                    Star (NoneOf [CHR 0x22, CHR 0x27])])]"

definition img_pattern :: "string \<Rightarrow> regex" where
  "img_pattern file_id =
     cat [Group 1 (cat [Lit ''<img'', Star (NoneOf ''>''), Lit [CHR ''s'', CHR ''r'', CHR ''c'', CHR ''='', CHR 0x22]]),
          Star (NoneOf [CHR 0x22]), Lit (''/files/'' @ file_id),
          Opt (cat [Lit ''/'', Alt (Lit ''preview'') (Lit ''download''),
                    Star (NoneOf [CHR 0x22, CHR 0x27])]),
          Group 2 (Star (NoneOf [CHR 0x22])),
          Group 3 (cat [Lit [CHR 0x22], Star (NoneOf ''>''), Lit ''>''])]"

definition link_text_pattern :: "string \<Rightarrow> regex" where
  "link_text_pattern file_id =
     cat [Lit ''<a'', Star (NoneOf ''>''), Lit [CHR ''h'', CHR ''r'', CHR ''e'', CHR ''f'', CHR ''='', CHR 0x22],
          Star (NoneOf [CHR 0x22]), Lit (''/files/'' @ file_id), Star (NoneOf [CHR 0x22]),
          Lit [CHR 0x22], Star (NoneOf ''>''), Lit ''>'',
          Group 1 (LazyStar AnyChar), Lit ''</a>'']"

definition a_pattern :: "string \<Rightarrow> regex" where
  "a_pattern file_id =
     cat [Group 1 (cat [Lit ''<a'', Star (NoneOf ''>''), Lit [CHR ''h'', CHR ''r'', CHR ''e'', CHR ''f'', CHR ''='', CHR 0x22]]),
          Star (NoneOf [CHR 0x22]), Lit (''/files/'' @ file_id),
          Opt (cat [Lit ''/'', Alt (Lit ''download'') (Lit ''preview''),
                    Star (NoneOf [CHR 0x22, CHR 0x27])]),
          Group 2 (Star (NoneOf [CHR 0x22])),
          Group 3 (Lit [CHR 0x22])]"

text \<open>
  The replacement \<open>rf'\1{relative_path}\2\3'\<close> of lines 138 and 154, as the string the
  f-string makes, and parsed for the three groups of \<open>img_pattern\<close> and \<open>a_pattern\<close>.
\<close>

definition template_source :: "path \<Rightarrow> string" where
  "template_source relative_path =
     [CHR 0x5C, CHR ''1''] @ path_str relative_path @ [CHR 0x5C, CHR ''2'', CHR 0x5C, CHR ''3'']"

definition rewrite_template :: "path \<Rightarrow> exn + tpart list" where
  "rewrite_template relative_path = parse_template 3 (template_source relative_path)"

section \<open>The link rewriter: \<open>extract_and_download_embedded_files\<close>\<close>

text \<open>
  \<open>int(file_id)\<close> on a string of ASCII digits; \<open>None\<close> is Python's \<open>ValueError\<close>. The
  other spellings \<open>int\<close> accepts (a sign, surrounding blanks, underscores) cannot come out
  of the group \<open>(\d+)\<close> and are not modelled, nor is the interpreter's configurable limit
  on the number of digits.
\<close>

definition digit_value :: "char \<Rightarrow> int option" where
  "digit_value c =
     map_of [(CHR ''0'', 0), (CHR ''1'', 1), (CHR ''2'', 2), (CHR ''3'', 3), (CHR ''4'', 4),
             (CHR ''5'', 5), (CHR ''6'', 6), (CHR ''7'', 7), (CHR ''8'', 8), (CHR ''9'', 9)] c"

fun digits_to_int :: "int \<Rightarrow> string \<Rightarrow> int option" where
  "digits_to_int acc [] = Some acc"
| "digits_to_int acc (c # s) =
     (case digit_value c of None \<Rightarrow> None | Some d \<Rightarrow> digits_to_int (10 * acc + d) s)"

definition py_int :: "string \<Rightarrow> int option" where
  "py_int s = (if s = [] then None else digits_to_int 0 s)"

text \<open>\<open>str.strip()\<close>: white space is removed at both ends.\<close>

definition is_space :: "char \<Rightarrow> bool" where
  "is_space c = (c \<in> set [CHR 0x20, CHR 0x09, CHR 0x0A, CHR 0x0B, CHR 0x0C, CHR 0x0D,
                            CHR 0x1C, CHR 0x1D, CHR 0x1E, CHR 0x1F, CHR 0x85, CHR 0xA0])"

definition strip :: "string \<Rightarrow> string" where
  "strip s = rev (dropWhile is_space (rev (dropWhile is_space s)))"

text \<open>
  The course handle: \<open>get_file\<close>, \<open>get_page\<close> and \<open>get_assignment\<close> return their object
  or raise. The \<open>canvas\<close> argument of the source is passed along and never used.
\<close>

record page =
  body :: "string option"

record assignment =
  description :: "string option"
  due_at :: "string option"
  due_at_text :: string                 \<comment> \<open>\<open>due_at_date.strftime('%Y-%m-%d %H:%M %Z')\<close>\<close>
  points_possible :: "string option"    \<comment> \<open>the printed value when the attribute is there and truthy\<close>

text \<open>
  A module item. \<open>content_id\<close> and \<open>html_url\<close> are attributes an item may lack
  (\<open>None\<close>); \<open>title\<close> may be \<open>None\<close>.
\<close>

record module_item =
  item_id :: int
  item_type :: string
  title :: "string option"
  page_url :: string
  content_id :: "int option"
  external_url :: string
  html_url :: "string option"

record canvas_module =
  cm_id :: int
  cm_name :: "string option"
  get_module_items :: "exn + module_item list"

record course =
  course_id :: int
  course_name :: "string option"
  get_file :: "int \<Rightarrow> exn + canvas_file"
  get_page :: "string \<Rightarrow> exn + page"
  get_assignment :: "int \<Rightarrow> exn + assignment"
  get_modules :: "exn + canvas_module list"

text \<open>The Markdown bullet of line 157.\<close>

definition md_link :: "string \<Rightarrow> path \<Rightarrow> string" where
  "md_link link_text relative_path = ''* ['' @ link_text @ '']('' @ path_str relative_path @ '')''"

text \<open>Lines 143 to 149: the text of the first anchor to the file, or the sanitised display name.\<close>

definition link_text_of :: "externals \<Rightarrow> string \<Rightarrow> string \<Rightarrow> canvas_file \<Rightarrow> string" where
  "link_text_of ext html_content file_id canvas_file_obj =
     (case search True (link_text_pattern file_id) html_content of
        None \<Rightarrow> sanitize_filename ext (display_name canvas_file_obj)
      | Some match_link_text \<Rightarrow>
          let temp_text = strip (html2text ext (group match_link_text 1))
          in if temp_text \<noteq> [] then temp_text
             else sanitize_filename ext (display_name canvas_file_obj))"

text \<open>
  Lines 127 to 157: with the local path in hand, rewrite the image sources; then, only
  if the image pattern finds nothing in the original fragment, rewrite the anchor targets
  and append the bullet. A replacement template that \<open>re\<close> rejects makes the first
  \<open>sub\<close> raise, before anything is assigned.
\<close>

definition rewrite_links ::
  "externals \<Rightarrow> string \<Rightarrow> path \<Rightarrow> string \<Rightarrow> canvas_file \<Rightarrow> path \<Rightarrow>
   string \<times> string list \<Rightarrow> exn + string \<times> string list" where
  "rewrite_links ext html_content module_readme_path file_id canvas_file_obj local_file_path acc =
     (let modified_html = fst acc;
          downloaded_item_links_md = snd acc;
          relative_path = relpath local_file_path (parent module_readme_path)
      in case rewrite_template relative_path of
           Inl e \<Rightarrow> Inl e
         | Inr template \<Rightarrow>
             let modified_html1 = sub True (img_pattern file_id) template modified_html
             in if search True (img_pattern file_id) html_content = None then
                  let link_text = link_text_of ext html_content file_id canvas_file_obj;
                      modified_html2 = sub True (a_pattern file_id) template modified_html1
                  in Inr (modified_html2, downloaded_item_links_md @ [md_link link_text relative_path])
                else Inr (modified_html1, downloaded_item_links_md))"

text \<open>The \<open>except\<close> clauses of lines 160 to 165.\<close>

definition handle_exn :: "string \<Rightarrow> exn \<Rightarrow> state \<Rightarrow> state" where
  "handle_exn file_id e s =
     (case e of
        ResourceDoesNotExist \<Rightarrow> logger WARNING (EmbeddedNotFound file_id) s
      | ValueError \<Rightarrow> logger ERROR (InvalidFileIdFormat file_id) s
      | _ \<Rightarrow> logger ERROR (ErrorProcessingEmbedded file_id e) s)"

text \<open>The body of the loop of line 105, on the rewritten fragment, the side list and the state.\<close>

definition process_file_id ::
  "externals \<Rightarrow> course \<Rightarrow> string \<Rightarrow> path \<Rightarrow> path \<Rightarrow> string \<Rightarrow>
   string \<times> string list \<times> state \<Rightarrow> string \<times> string list \<times> state" where
  "process_file_id ext crs html_content files_subdir module_readme_path file_id acc =
     (let modified_html = fst acc; links = fst (snd acc); s = snd (snd acc) in
      case py_int file_id of
        None \<Rightarrow> (modified_html, links, handle_exn file_id ValueError s)
      | Some file_id_int \<Rightarrow>
          if file_id_int \<in> DOWNLOADED_FILE_IDS_GLOBAL s then
            (case get_file crs file_id_int of
               Inl e \<Rightarrow>
                 (modified_html, links,
                  if e = ResourceDoesNotExist then logger WARNING (CouldNotFindFileId file_id_int) s
                  else handle_exn file_id e s)
             | Inr canvas_file_obj \<Rightarrow>
                 let sanitized_filename_str = sanitize_filename ext (display_name canvas_file_obj);
                     local_file_path = path_join files_subdir sanitized_filename_str
                 in (case rewrite_links ext html_content module_readme_path file_id
                            canvas_file_obj local_file_path (modified_html, links) of
                       Inl e \<Rightarrow> (modified_html, links, handle_exn file_id e s)
                     | Inr r \<Rightarrow> (fst r, snd r, s)))
          else
            (case get_file crs file_id_int of
               Inl e \<Rightarrow> (modified_html, links, handle_exn file_id e s)
             | Inr canvas_file_obj \<Rightarrow>
                 (case download_canvas_file_object ext canvas_file_obj files_subdir s of
                    (None, s') \<Rightarrow> (modified_html, links, s')
                  | (Some local_file_path, s') \<Rightarrow>
                      (case rewrite_links ext html_content module_readme_path file_id
                              canvas_file_obj local_file_path (modified_html, links) of
                         Inl e \<Rightarrow> (modified_html, links, handle_exn file_id e s')
                       | Inr r \<Rightarrow> (fst r, snd r, s')))))"

text \<open>
  Line 103. A Python set has no specified iteration order; the model enumerates the
  captured identifiers without repetition in the order \<open>remdups\<close> leaves them.
\<close>

definition found_file_ids :: "string \<Rightarrow> string list" where
  "found_file_ids html_content =
     remdups (map (\<lambda>m. group m 1) (finditer False file_id_pattern html_content))"

definition process_file_ids ::
  "externals \<Rightarrow> course \<Rightarrow> string \<Rightarrow> path \<Rightarrow> path \<Rightarrow> string list \<Rightarrow>
   string \<times> string list \<times> state \<Rightarrow> string \<times> string list \<times> state" where
  "process_file_ids ext crs html_content files_subdir module_readme_path ids acc =
     foldl (\<lambda>a file_id. process_file_id ext crs html_content files_subdir module_readme_path file_id a)
       acc ids"

text \<open>
  The whole function. \<open>html_content\<close> is \<open>None\<close> or a string; the result is the rewritten
  fragment, the side list \<open>list(set(downloaded_item_links_md))\<close> and the new state.
\<close>

definition extract_and_download_embedded_files ::
  "externals \<Rightarrow> course \<Rightarrow> string option \<Rightarrow> path \<Rightarrow> path \<Rightarrow> state \<Rightarrow>
   string option \<times> string list \<times> state" where
  "extract_and_download_embedded_files ext crs html_content files_subdir module_readme_path s =
     (case html_content of
        None \<Rightarrow> (None, [], s)
      | Some h \<Rightarrow>
          if h = [] then (Some h, [], s)
          else
            let s1 = mkdir files_subdir s;
                r = process_file_ids ext crs h files_subdir module_readme_path
                      (found_file_ids h) (h, [], s1)
            in (Some (fst r), remdups (fst (snd r)), snd (snd r)))"

section \<open>The item renderer: \<open>process_module_item\<close>\<close>

definition nl :: string where
  "nl = [CHR 0x0A]"

definition apos :: string where
  "apos = [CHR 0x27]"

text \<open>How an f-string prints a value that may be \<open>None\<close>.\<close>

definition fmt :: "string option \<Rightarrow> string" where
  "fmt t = (case t of None \<Rightarrow> ''None'' | Some x \<Rightarrow> x)"

definition convert_html_to_markdown :: "externals \<Rightarrow> string option \<Rightarrow> string" where
  "convert_html_to_markdown ext html_content =
     (case html_content of
        None \<Rightarrow> []
      | Some h \<Rightarrow> if h = [] then [] else handle_html ext h)"

definition referenced_files :: "string list \<Rightarrow> string" where
  "referenced_files embedded_file_links_md =
     (if embedded_file_links_md \<noteq> []
      then nl @ nl @ ''**Referenced Files:**'' @ nl @ str_join nl embedded_file_links_md
      else [])"

text \<open>
  The body of the \<open>try\<close> of lines 190 to 262: the Markdown written so far, the state,
  and the exception that ended it, if one did.
\<close>

definition item_body ::
  "externals \<Rightarrow> course \<Rightarrow> module_item \<Rightarrow> path \<Rightarrow> path \<Rightarrow> state \<Rightarrow>
   string \<times> state \<times> exn option" where
  "item_body ext crs item files_subdir module_readme_path s =
     (if item_type item = ''Page'' then
        let md = ''## '' @ fmt (title item) @ nl @ nl in
        (case get_page crs (page_url item) of
           Inl e \<Rightarrow> (md, s, Some e)
         | Inr pg \<Rightarrow>
             (case body pg of
                None \<Rightarrow> (md @ ''*(This page has no content)*'' @ nl, s, None)
              | Some b \<Rightarrow>
                  if b = [] then (md @ ''*(This page has no content)*'' @ nl, s, None)
                  else
                    let r = extract_and_download_embedded_files ext crs (Some b)
                              files_subdir module_readme_path s
                    in (md @ convert_html_to_markdown ext (fst r) @ referenced_files (fst (snd r)),
                        snd (snd r), None)))
      else if item_type item = ''File'' then
        (case content_id item of
           None \<Rightarrow> ([], s, Some OtherException)
         | Some cid \<Rightarrow>
             (case get_file crs cid of
                Inl e \<Rightarrow> ([], s, Some e)
              | Inr canvas_file_obj \<Rightarrow>
                  (case download_canvas_file_object ext canvas_file_obj files_subdir s of
                     (None, s') \<Rightarrow> ([], s', None)
                   | (Some local_file_path, s') \<Rightarrow>
                       (''* **File:** ['' @ display_name canvas_file_obj @ '']('' @
                          path_str (relpath local_file_path (parent module_readme_path)) @
                          '')'' @ nl,
                        s', None))))
      else if item_type item = ''ExternalUrl'' then
        (''* **External URL:** ['' @ fmt (title item) @ '']('' @ external_url item @ '')'' @ nl,
         s, None)
      else if item_type item = ''SubHeader'' then
        (''### '' @ fmt (title item) @ nl @ nl, s, None)
      else if item_type item = ''Assignment'' then
        let md = ''## Assignment: '' @ fmt (title item) @ nl @ nl in
        (case content_id item of
           None \<Rightarrow> (md, s, Some OtherException)
         | Some cid \<Rightarrow>
             (case get_assignment crs cid of
                Inl e \<Rightarrow> (md, s, Some e)
              | Inr a \<Rightarrow>
                  let r = (case description a of
                             None \<Rightarrow> (md @ ''*(This assignment has no description)*'' @ nl, s)
                           | Some d \<Rightarrow>
                               if d = [] then (md @ ''*(This assignment has no description)*'' @ nl, s)
                               else
                                 let x = extract_and_download_embedded_files ext crs (Some d)
                                           files_subdir module_readme_path s
                                 in (md @ convert_html_to_markdown ext (fst x) @
                                       referenced_files (fst (snd x)),
                                     snd (snd x)));
                      md1 = fst r @
                              (case due_at a of
                                 None \<Rightarrow> []
                               | Some d \<Rightarrow> if d = [] then []
                                           else nl @ ''*Due: '' @ due_at_text a @ ''*'' @ nl);
                      md2 = md1 @
                              (case points_possible a of
                                 None \<Rightarrow> []
                               | Some pts \<Rightarrow> ''*Points: '' @ pts @ ''*'' @ nl)
                  in (md2, snd r, None)))
      else if item_type item = ''Discussion'' then
        (''## Discussion: '' @ fmt (title item) @ nl @ nl @
           (case html_url item of
              Some u \<Rightarrow> ''*Link to discussion on Canvas: ['' @ fmt (title item) @ '']('' @ u @ '')*'' @ nl
            | None \<Rightarrow> ''*(Link not available, access through Canvas module)*'' @ nl),
         s, None)
      else if item_type item = ''Quiz'' then
        (''## Quiz: '' @ fmt (title item) @ nl @ nl @
           (case html_url item of
              Some u \<Rightarrow> ''*Link to quiz on Canvas: ['' @ fmt (title item) @ '']('' @ u @ '')*'' @ nl
            | None \<Rightarrow> ''*(Link not available, access through Canvas module)*'' @ nl),
         s, None)
      else
        (''* **'' @ item_type item @ '':** '' @ fmt (title item) @ '' '' @
           (case html_url item of
              Some u \<Rightarrow> if u \<noteq> [] then '' ([View on Canvas]('' @ u @ ''))'' else []
            | None \<Rightarrow> []) @ nl,
         logger WARNING (UnsupportedItemType (item_type item) (title item)) s, None))"

text \<open>The notices of the \<open>except\<close> clauses of lines 264 to 272.\<close>

definition not_found_notice :: "module_item \<Rightarrow> string" where
  "not_found_notice item =
     ''*Item '' @ apos @ fmt (title item) @ apos @ '' could not be retrieved (Resource not found).*'' @ nl"

definition forbidden_notice :: "module_item \<Rightarrow> string" where
  "forbidden_notice item =
     ''*Item '' @ apos @ fmt (title item) @ apos @ '' could not be retrieved (Access forbidden).*'' @ nl"

definition error_notice :: "module_item \<Rightarrow> string" where
  "error_notice item =
     ''*An error occurred while processing item '' @ apos @ fmt (title item) @ apos @ ''.*'' @ nl"

definition separator :: string where
  "separator = nl @ ''---'' @ nl @ nl"

text \<open>
  The whole function: the log line and the \<open>mkdir\<close> of lines 178 and 186, the \<open>try\<close>,
  its handlers, and the separator of line 274.
\<close>

definition process_module_item ::
  "externals \<Rightarrow> course \<Rightarrow> module_item \<Rightarrow> path \<Rightarrow> state \<Rightarrow> string \<times> state" where
  "process_module_item ext crs item module_path s =
     (let s0 = logger INFO (ProcessingItem (title item) (item_type item)) s;
          files_subdir = path_join module_path ''_files'';
          s1 = mkdir files_subdir s0;
          module_readme_path = path_join module_path ''README.md'';
          r = item_body ext crs item files_subdir module_readme_path s1;
          item_md_content = fst r;
          s2 = fst (snd r)
      in (case snd (snd r) of
            None \<Rightarrow> (item_md_content @ separator, s2)
          | Some ResourceDoesNotExist \<Rightarrow>
              (item_md_content @ not_found_notice item @ separator,
               logger ERROR (ResourceNotFound (title item)) s2)
          | Some Forbidden \<Rightarrow>
              (item_md_content @ forbidden_notice item @ separator,
               logger ERROR (AccessForbidden (title item)) s2)
          | Some e \<Rightarrow>
              (item_md_content @ error_notice item @ separator,
               logger ERROR (ErrorProcessingItem (title item) e) s2)))"

section \<open>The module writer and the course driver\<close>

definition write_file :: "path \<Rightarrow> string \<Rightarrow> state \<Rightarrow> state" where
  "write_file p txt s = emit (WriteFile p txt) (s\<lparr>fs_files := insert p (fs_files s)\<rparr>)"

text \<open>The loop of line 295, on the README text and the state.\<close>

fun process_items ::
  "externals \<Rightarrow> course \<Rightarrow> path \<Rightarrow> module_item list \<Rightarrow> string \<times> state \<Rightarrow> string \<times> state" where
  "process_items ext crs module_path [] acc = acc"
| "process_items ext crs module_path (item # items) acc =
     (let r = process_module_item ext crs item module_path (snd acc)
      in process_items ext crs module_path items (fst acc @ fst r, snd r))"

text \<open>
  \<open>sanitize_filename(module.name or f"Untitled_Module_{module.id}")\<close>: the name of an
  untitled module carries its number, which \<open>untitled\<close> stands for.
\<close>

definition name_or :: "string option \<Rightarrow> string \<Rightarrow> string" where
  "name_or n dflt = (case n of None \<Rightarrow> dflt | Some x \<Rightarrow> if x = [] then dflt else x)"

definition process_module ::
  "externals \<Rightarrow> (int \<Rightarrow> string) \<Rightarrow> course \<Rightarrow> canvas_module \<Rightarrow> path \<Rightarrow> state \<Rightarrow> state" where
  "process_module ext untitled crs m course_path s =
     (let module_name_str = sanitize_filename ext (name_or (cm_name m) (untitled (cm_id m)));
          s0 = logger INFO (ProcessingModule (cm_name m)) s;
          module_path = path_join course_path module_name_str;
          s1 = mkdir module_path s0;
          module_readme_content = ''# Module: '' @ fmt (cm_name m) @ nl @ nl
      in (case get_module_items m of
            Inl e \<Rightarrow>
              write_file (path_join module_path ''README.md'')
                (module_readme_content @ ''**ERROR: Could not retrieve items for this module.**'' @ nl)
                (logger ERROR (CouldNotRetrieveItems (cm_name m) e) s1)
          | Inr module_items \<Rightarrow>
              let r = process_items ext crs module_path module_items (module_readme_content, s1);
                  readme_file_path = path_join module_path ''README.md''
              in logger INFO (FinishedModule (cm_name m) readme_file_path)
                   (write_file readme_file_path (fst r) (snd r))))"

fun process_modules ::
  "externals \<Rightarrow> (int \<Rightarrow> string) \<Rightarrow> course \<Rightarrow> path \<Rightarrow> canvas_module list \<Rightarrow> state \<Rightarrow> state" where
  "process_modules ext untitled crs course_path [] s = s"
| "process_modules ext untitled crs course_path (m # ms) s =
     process_modules ext untitled crs course_path ms (process_module ext untitled crs m course_path s)"

definition process_course ::
  "externals \<Rightarrow> (int \<Rightarrow> string) \<Rightarrow> course \<Rightarrow> path \<Rightarrow> state \<Rightarrow> state" where
  "process_course ext untitled crs output_base_dir s =
     (let course_name_str = sanitize_filename ext (name_or (course_name crs) (untitled (course_id crs)));
          s0 = logger INFO (StartingCourse (course_name crs) (course_id crs)) s;
          course_path = path_join output_base_dir course_name_str;
          s1 = mkdir course_path s0;
          s2 = (case get_modules crs of
                  Inr modules \<Rightarrow> process_modules ext untitled crs course_path modules s1
                | Inl Unauthorized \<Rightarrow> logger ERROR (UnauthorizedModules (course_name crs)) s1
                | Inl Forbidden \<Rightarrow> logger ERROR (ForbiddenModules (course_name crs)) s1
                | Inl e \<Rightarrow> logger ERROR (UnexpectedModulesError (course_name crs) e) s1)
      in logger INFO (FinishedCourse (course_name crs)) s2)"

text \<open>
  The loop of line 400 over the courses of a run: a course without a name is fetched
  again with \<open>canvas.get_course\<close> first, and a failure of that is logged.
\<close>

fun process_courses ::
  "externals \<Rightarrow> (int \<Rightarrow> string) \<Rightarrow> (int \<Rightarrow> exn + course) \<Rightarrow> path \<Rightarrow> course list \<Rightarrow>
   state \<Rightarrow> state" where
  "process_courses ext untitled get_course output_path [] s = s"
| "process_courses ext untitled get_course output_path (crs # cs) s =
     process_courses ext untitled get_course output_path cs
       (case course_name crs of
          Some n \<Rightarrow> process_course ext untitled crs output_path s
        | None \<Rightarrow>
            (case get_course (course_id crs) of
               Inr full_course \<Rightarrow> process_course ext untitled full_course output_path s
             | Inl e \<Rightarrow> logger ERROR (FailedToProcessCourse (course_id crs) e) s))"

text \<open>The state at the start of a run: nothing downloaded, nothing logged, no output yet.\<close>

definition initial_state :: state where
  "initial_state = \<lparr>DOWNLOADED_FILE_IDS_GLOBAL = {}, fs_files = {}, fs_dirs = {}, trace = []\<rparr>"

section \<open>Notions used to state the properties\<close>

text \<open>The events that a stretch of the run from \<open>s\<close> to \<open>s'\<close> added to the trace.\<close>

definition new_events :: "state \<Rightarrow> state \<Rightarrow> event list" where
  "new_events s s' = drop (length (trace s)) (trace s')"

text \<open>
  What every stretch of a run does to the state: the trace is extended, the set of
  downloaded identifiers and the file system only grow, and no \<open>download\<close> is called for
  an identifier that was in the set at the start.
\<close>

definition progress :: "state \<Rightarrow> state \<Rightarrow> bool" where
  "progress s s' =
     (prefix (trace s) (trace s') \<and>
      DOWNLOADED_FILE_IDS_GLOBAL s \<subseteq> DOWNLOADED_FILE_IDS_GLOBAL s' \<and>
      fs_files s \<subseteq> fs_files s' \<and>
      fs_dirs s \<subseteq> fs_dirs s' \<and>
      (\<forall>x \<in> set (download_calls (new_events s s')). fst x \<notin> DOWNLOADED_FILE_IDS_GLOBAL s))"

text \<open>
  No identifier has been downloaded twice, and every downloaded identifier is in
  \<open>DOWNLOADED_FILE_IDS_GLOBAL\<close>.
\<close>

definition at_most_once :: "state \<Rightarrow> bool" where
  "at_most_once s =
     (distinct (map fst (downloaded (trace s))) \<and>
      fst ` set (downloaded (trace s)) \<subseteq> DOWNLOADED_FILE_IDS_GLOBAL s)"

text \<open>Every file a download has written is on disk.\<close>

definition files_present :: "state \<Rightarrow> bool" where
  "files_present s = (\<forall>x \<in> set (downloaded (trace s)). snd x \<in> fs_files s)"

text \<open>The fragment contains \<open>/files/\<close> followed by a digit somewhere.\<close>

definition numeric_file_ref :: "string \<Rightarrow> bool" where
  "numeric_file_ref h = (\<exists>d \<in> set ''0123456789''. sublist (''/files/'' @ [d]) h)"

text \<open>
  The bullet that lines 128 to 157 build for an identifier whose file handle is
  \<open>canvas_file_obj\<close>: in both branches of line 108 the local path is the attachments
  directory followed by the sanitised display name.
\<close>

definition side_entry :: "externals \<Rightarrow> string \<Rightarrow> path \<Rightarrow> path \<Rightarrow> string \<Rightarrow> canvas_file \<Rightarrow> string" where
  "side_entry ext html_content files_subdir module_readme_path file_id canvas_file_obj =
     md_link (link_text_of ext html_content file_id canvas_file_obj)
       (relpath (path_join files_subdir (sanitize_filename ext (display_name canvas_file_obj)))
          (parent module_readme_path))"

text \<open>
  The exception, if any, raised by the call that fetches an item's content: \<open>get_page\<close>
  for a page (line 193), \<open>get_file\<close> for a file (line 206), \<open>get_assignment\<close> for an
  assignment (line 220).
\<close>

definition fetch_error :: "course \<Rightarrow> module_item \<Rightarrow> exn option" where
  "fetch_error crs item =
     (if item_type item = ''Page'' then
        (case get_page crs (page_url item) of Inl e \<Rightarrow> Some e | Inr pg \<Rightarrow> None)
      else if item_type item = ''File'' then
        (case content_id item of
           None \<Rightarrow> None
         | Some cid \<Rightarrow> (case get_file crs cid of Inl e \<Rightarrow> Some e | Inr f \<Rightarrow> None))
      else if item_type item = ''Assignment'' then
        (case content_id item of
           None \<Rightarrow> None
         | Some cid \<Rightarrow> (case get_assignment crs cid of Inl e \<Rightarrow> Some e | Inr a \<Rightarrow> None))
      else None)"

section \<open>Sample inputs\<close>

text \<open>
  A course \<open>X\<close> whose every file is called \<open>d.png\<close>, with modules \<open>Y\<close> and \<open>Z\<close>, library
  functions that leave their argument as it is, and a few fragments.
\<close>

definition dq :: string where
  "dq = [CHR 0x22]"

definition plain_ext :: externals where
  "plain_ext = \<lparr>sanitize_filename = (\<lambda>n. n), html2text = (\<lambda>t. t), handle_html = (\<lambda>t. t)\<rparr>"

definition sample_file :: "exn option \<Rightarrow> int \<Rightarrow> canvas_file" where
  "sample_file e i = \<lparr>cf_id = i, display_name = ''d.png'', download_error = e\<rparr>"

definition sample_course :: "(int \<Rightarrow> exn + canvas_file) \<Rightarrow> course" where
  "sample_course gf =
     \<lparr>course_id = 1, course_name = Some ''X'', get_file = gf,
      get_page = (\<lambda>u. Inl ResourceDoesNotExist), get_assignment = (\<lambda>i. Inl Forbidden),
      get_modules = Inr []\<rparr>"

definition serving :: "exn option \<Rightarrow> course" where
  "serving e = sample_course (\<lambda>i. Inr (sample_file e i))"

definition module_Y :: path where
  "module_Y = [''X'', ''Y'']"

definition files_Y :: path where
  "files_Y = [''X'', ''Y'', ''_files'']"

definition files_Z :: path where
  "files_Z = [''X'', ''Z'', ''_files'']"

definition readme_Y :: path where
  "readme_Y = [''X'', ''Y'', ''README.md'']"

definition img_and_anchor :: string where
  "img_and_anchor = ''<img src='' @ dq @ ''/files/42/preview'' @ dq @ ''><a href='' @ dq @
                    ''/files/42/download'' @ dq @ ''>doc</a>''"

definition img_and_other_anchor :: string where
  "img_and_other_anchor = ''<img src='' @ dq @ ''/files/42'' @ dq @ ''><a href='' @ dq @
                    ''/files/5'' @ dq @ ''>a</a>''"

definition two_spellings :: string where
  "two_spellings = ''<a href='' @ dq @ ''/files/7'' @ dq @ ''>a</a><a href='' @ dq @
                   ''/files/07'' @ dq @ ''>b</a>''"

definition malformed_anchor :: string where
  "malformed_anchor = ''<a href='' @ dq @ ''/files/abc'' @ dq @ ''>x</a>''"

definition twice_anchor :: string where
  "twice_anchor = ''<a href='' @ dq @ ''/files/5'' @ dq @ ''>a</a><a href='' @ dq @
                  ''/files/5'' @ dq @ ''>a</a>''"

definition three_tags :: string where
  "three_tags = ''<a href='' @ dq @ ''/files/5'' @ dq @ ''>a</a><img src='' @ dq @
                ''/files/6'' @ dq @ ''><a href='' @ dq @ ''/files/5'' @ dq @ ''>b</a>''"

definition missing_page :: module_item where
  "missing_page =
     \<lparr>item_id = 3, item_type = ''Page'', title = Some ''Intro'', page_url = ''intro'',
      content_id = None, external_url = [], html_url = None\<rparr>"

definition closed_assignment :: module_item where
  "closed_assignment =
     \<lparr>item_id = 4, item_type = ''Assignment'', title = Some ''Essay'', page_url = [],
      content_id = Some 9, external_url = [], html_url = None\<rparr>"

text \<open>The state after file 42 has been downloaded into module \<open>Y\<close>.\<close>

definition after_download :: state where
  "after_download =
     snd (download_canvas_file_object plain_ext (sample_file None 42) files_Y initial_state)"

text \<open>Further fragments: an identifier that goes on with letters, an image of file 42 beside
  two anchors to file 4, an image and two anchors of the same file, and an anchor before an
  image.\<close>

definition digits_then_letters :: string where
  "digits_then_letters = ''<a href='' @ dq @ ''/files/12abc'' @ dq @ ''>x</a>''"

definition img_of_longer_id :: string where
  "img_of_longer_id = ''<img src='' @ dq @ ''/files/42'' @ dq @ ''><a href='' @ dq @ ''/files/4'' @ dq @
     ''>a</a><a href='' @ dq @ ''/files/4'' @ dq @ ''>a</a>''"

definition img_and_two_anchors :: string where
  "img_and_two_anchors = ''<img src='' @ dq @ ''/files/42/preview'' @ dq @ ''><a href='' @ dq @
     ''/files/42'' @ dq @ ''>a</a><a href='' @ dq @ ''/files/42'' @ dq @ ''>a</a>''"

definition anchor_then_img :: string where
  "anchor_then_img = ''<a href='' @ dq @ ''/files/42/download'' @ dq @ ''>doc</a><img src='' @ dq @
                     ''/files/42/preview'' @ dq @ ''>''"

text \<open>
  A course \<open>X\<close> whose modules \<open>Y\<close> and \<open>Z\<close> both hold a file item for file 42, \<open>Z\<close> also a
  page that shows the file as an image, and a whole run over this course, with the current
  directory as the output directory.
\<close>

definition file_item_42 :: module_item where
  "file_item_42 =
     \<lparr>item_id = 1, item_type = ''File'', title = Some ''d.png'', page_url = [],
      content_id = Some 42, external_url = [], html_url = None\<rparr>"

definition picture_page :: module_item where
  "picture_page =
     \<lparr>item_id = 2, item_type = ''Page'', title = Some ''Pic'', page_url = ''pic'',
      content_id = None, external_url = [], html_url = None\<rparr>"

definition two_modules :: course where
  "two_modules =
     \<lparr>course_id = 1, course_name = Some ''X'',
      get_file = (\<lambda>i. Inr (sample_file None i)),
      get_page = (\<lambda>u. Inr \<lparr>body = Some (''<img src='' @ dq @ ''/files/42/preview'' @ dq @ ''>'')\<rparr>),
      get_assignment = (\<lambda>i. Inl Forbidden),
      get_modules = Inr [\<lparr>cm_id = 1, cm_name = Some ''Y'', get_module_items = Inr [file_item_42]\<rparr>,
                         \<lparr>cm_id = 2, cm_name = Some ''Z'',
                            get_module_items = Inr [file_item_42, picture_page]\<rparr>]\<rparr>"

definition two_module_run :: state where
  "two_module_run =
     process_courses plain_ext (\<lambda>i. ''Untitled'') (\<lambda>i. Inl ResourceDoesNotExist) [] [two_modules]
       initial_state"

section \<open>Lemmas\<close>

subsection \<open>The state and its invariants\<close>

lemma download_calls_append: "download_calls (xs @ ys) = download_calls xs @ download_calls ys"
  by (induction xs rule: download_calls.induct) simp_all

lemma downloaded_append: "downloaded (xs @ ys) = downloaded xs @ downloaded ys"
  by (induction xs rule: downloaded.induct) simp_all

lemma new_events_append: "trace s' = trace s @ evs \<Longrightarrow> new_events s s' = evs"
  by (simp add: new_events_def)

lemma progress_refl: "progress s s"
  by (simp add: progress_def new_events_def)

lemma progressI:
  assumes "trace s' = trace s @ evs"
    and "DOWNLOADED_FILE_IDS_GLOBAL s \<subseteq> DOWNLOADED_FILE_IDS_GLOBAL s'"
    and "fs_files s \<subseteq> fs_files s'" and "fs_dirs s \<subseteq> fs_dirs s'"
    and "\<And>x. x \<in> set (download_calls evs) \<Longrightarrow> fst x \<notin> DOWNLOADED_FILE_IDS_GLOBAL s"
  shows "progress s s'"
  using assms by (auto simp: progress_def new_events_def)

lemma progressE:
  assumes "progress s s'"
  obtains evs where "trace s' = trace s @ evs"
    and "DOWNLOADED_FILE_IDS_GLOBAL s \<subseteq> DOWNLOADED_FILE_IDS_GLOBAL s'"
    and "fs_files s \<subseteq> fs_files s'" and "fs_dirs s \<subseteq> fs_dirs s'"
    and "\<forall>x \<in> set (download_calls evs). fst x \<notin> DOWNLOADED_FILE_IDS_GLOBAL s"
proof -
  from assms obtain evs where e: "trace s' = trace s @ evs"
    by (auto simp: progress_def prefix_def)
  then have "new_events s s' = evs" by (rule new_events_append)
  with assms e that show thesis by (auto simp: progress_def)
qed

lemma progress_trans:
  assumes "progress s s'" and "progress s' s''"
  shows "progress s s''"
proof -
  from assms(1) obtain e1 where 1: "trace s' = trace s @ e1"
    "DOWNLOADED_FILE_IDS_GLOBAL s \<subseteq> DOWNLOADED_FILE_IDS_GLOBAL s'"
    "fs_files s \<subseteq> fs_files s'" "fs_dirs s \<subseteq> fs_dirs s'"
    "\<forall>x \<in> set (download_calls e1). fst x \<notin> DOWNLOADED_FILE_IDS_GLOBAL s"
    by (rule progressE)
  from assms(2) obtain e2 where 2: "trace s'' = trace s' @ e2"
    "DOWNLOADED_FILE_IDS_GLOBAL s' \<subseteq> DOWNLOADED_FILE_IDS_GLOBAL s''"
    "fs_files s' \<subseteq> fs_files s''" "fs_dirs s' \<subseteq> fs_dirs s''"
    "\<forall>x \<in> set (download_calls e2). fst x \<notin> DOWNLOADED_FILE_IDS_GLOBAL s'"
    by (rule progressE)
  show ?thesis
  proof (rule progressI)
    show "trace s'' = trace s @ (e1 @ e2)" using 1(1) 2(1) by simp
    show "DOWNLOADED_FILE_IDS_GLOBAL s \<subseteq> DOWNLOADED_FILE_IDS_GLOBAL s''" using 1(2) 2(2) by blast
    show "fs_files s \<subseteq> fs_files s''" using 1(3) 2(3) by blast
    show "fs_dirs s \<subseteq> fs_dirs s''" using 1(4) 2(4) by blast
    show "fst x \<notin> DOWNLOADED_FILE_IDS_GLOBAL s" if "x \<in> set (download_calls (e1 @ e2))" for x
      using that 1(2,5) 2(5) by (auto simp: download_calls_append)
  qed
qed

lemma progress_logger: "progress s (logger lvl m s)"
  by (rule progressI [where evs = "[Log lvl m]"]) (simp_all add: logger_def emit_def)

lemma progress_mkdir: "progress s (mkdir p s)"
  by (rule progressI [where evs = "[Mkdir p]"]) (auto simp: mkdir_def emit_def)

lemma progress_write_file: "progress s (write_file p t s)"
  by (rule progressI [where evs = "[WriteFile p t]"]) (auto simp: write_file_def emit_def)

lemma progress_handle_exn: "progress s (handle_exn i e s)"
  by (simp add: handle_exn_def progress_logger split: exn.splits)

lemma amo_logger: "at_most_once (logger lvl m s) = at_most_once s"
  by (simp add: at_most_once_def logger_def emit_def downloaded_append)

lemma amo_mkdir: "at_most_once (mkdir p s) = at_most_once s"
  by (simp add: at_most_once_def mkdir_def emit_def downloaded_append)

lemma amo_write_file: "at_most_once (write_file p t s) = at_most_once s"
  by (simp add: at_most_once_def write_file_def emit_def downloaded_append)

lemma amo_handle_exn: "at_most_once (handle_exn i e s) = at_most_once s"
  by (simp add: handle_exn_def amo_logger split: exn.splits)

lemma fp_logger: "files_present (logger lvl m s) = files_present s"
  by (simp add: files_present_def logger_def emit_def downloaded_append)

lemma fp_mkdir: "files_present (mkdir p s) = files_present s"
  by (simp add: files_present_def mkdir_def emit_def downloaded_append)

lemma fp_write_file: "files_present s \<Longrightarrow> files_present (write_file p t s)"
  by (simp add: files_present_def write_file_def emit_def downloaded_append)

lemma fp_handle_exn: "files_present (handle_exn i e s) = files_present s"
  by (simp add: handle_exn_def fp_logger split: exn.splits)

subsection \<open>The fetcher\<close>

text \<open>The three outcomes of the fetcher.\<close>

lemma fetch_registered:
  "cf_id f \<in> DOWNLOADED_FILE_IDS_GLOBAL s \<Longrightarrow>
   download_canvas_file_object ext f dir s =
     (Some (path_join dir (sanitize_filename ext (display_name f))),
      logger DEBUG (AlreadyProcessed (display_name f) (cf_id f)) s)"
  by (simp add: download_canvas_file_object_def)

lemma fetch_ok:
  "cf_id f \<notin> DOWNLOADED_FILE_IDS_GLOBAL s \<Longrightarrow> download_error f = None \<Longrightarrow>
   download_canvas_file_object ext f dir s =
     (Some (path_join dir (sanitize_filename ext (display_name f))),
      s\<lparr>DOWNLOADED_FILE_IDS_GLOBAL := insert (cf_id f) (DOWNLOADED_FILE_IDS_GLOBAL s),
        fs_files := insert (path_join dir (sanitize_filename ext (display_name f))) (fs_files s),
        trace := trace s @ [Log INFO (Downloading (display_name f)
                              (path_join dir (sanitize_filename ext (display_name f)))),
                            Download (cf_id f) (path_join dir (sanitize_filename ext (display_name f))) True]\<rparr>)"
  by (simp add: download_canvas_file_object_def Let_def logger_def emit_def)

lemma fetch_failed:
  "cf_id f \<notin> DOWNLOADED_FILE_IDS_GLOBAL s \<Longrightarrow> download_error f = Some e \<Longrightarrow>
   download_canvas_file_object ext f dir s =
     (None,
      s\<lparr>trace := trace s @ [Log INFO (Downloading (display_name f)
                              (path_join dir (sanitize_filename ext (display_name f)))),
                            Download (cf_id f) (path_join dir (sanitize_filename ext (display_name f))) False,
                            Log ERROR (FailedToDownload (display_name f) (cf_id f) e)]\<rparr>)"
  by (simp add: download_canvas_file_object_def Let_def logger_def emit_def)

lemma fetch_cases:
  obtains (registered) "cf_id f \<in> DOWNLOADED_FILE_IDS_GLOBAL s"
  | (ok) "cf_id f \<notin> DOWNLOADED_FILE_IDS_GLOBAL s" "download_error f = None"
  | (failed) e where "cf_id f \<notin> DOWNLOADED_FILE_IDS_GLOBAL s" "download_error f = Some e"
  by (cases "download_error f") auto

lemma fetch_path:
  "fst (download_canvas_file_object ext f dir s) = Some p \<Longrightarrow>
   p = path_join dir (sanitize_filename ext (display_name f))"
  by (cases f s rule: fetch_cases) (auto simp: fetch_registered fetch_ok fetch_failed)

lemma progress_fetch: "progress s (snd (download_canvas_file_object ext f dir s))"
proof (cases f s rule: fetch_cases)
  case registered
  then show ?thesis by (simp add: fetch_registered progress_logger)
next
  case ok
  then show ?thesis
    by (simp add: fetch_ok) (rule progressI, simp, auto)
next
  case (failed e)
  then show ?thesis
    by (simp add: fetch_failed) (rule progressI, simp, auto)
qed

lemma amo_fetch:
  "at_most_once s \<Longrightarrow> at_most_once (snd (download_canvas_file_object ext f dir s))"
proof (cases f s rule: fetch_cases)
  case registered
  then show "at_most_once s \<Longrightarrow> ?thesis" by (simp add: fetch_registered amo_logger)
next
  case ok
  then show "at_most_once s \<Longrightarrow> ?thesis"
    by (auto simp: fetch_ok at_most_once_def downloaded_append)
next
  case (failed e)
  then show "at_most_once s \<Longrightarrow> ?thesis"
    by (auto simp: fetch_failed at_most_once_def downloaded_append)
qed

lemma fp_fetch:
  "files_present s \<Longrightarrow> files_present (snd (download_canvas_file_object ext f dir s))"
proof (cases f s rule: fetch_cases)
  case registered
  then show "files_present s \<Longrightarrow> ?thesis" by (simp add: fetch_registered fp_logger)
next
  case ok
  then show "files_present s \<Longrightarrow> ?thesis"
    by (auto simp: fetch_ok files_present_def downloaded_append)
next
  case (failed e)
  then show "files_present s \<Longrightarrow> ?thesis"
    by (auto simp: fetch_failed files_present_def downloaded_append)
qed

subsection \<open>The scan for identifiers\<close>

lemma lit_prefix_exact: "lit_prefix False l s = prefix l s"
  by (induction False l s rule: lit_prefix.induct) auto

lemma star_greedy_drop:
  "r \<in> set (star_greedy ic cs s) \<Longrightarrow>
   \<exists>k. r = drop k s \<and> k \<le> length s \<and> (\<forall>c \<in> set (take k s). in_charset ic cs c)"
proof (induction s arbitrary: r)
  case Nil
  then show ?case by simp
next
  case (Cons c s)
  show ?case
  proof (cases "r = c # s")
    case True
    then show ?thesis by (intro exI [of _ 0]) simp
  next
    case False
    with Cons.prems have c: "in_charset ic cs c" and "r \<in> set (star_greedy ic cs s)"
      by (auto split: if_splits)
    then obtain k where "r = drop k s" "k \<le> length s" "\<forall>c \<in> set (take k s). in_charset ic cs c"
      using Cons.IH by blast
    with c show ?thesis by (intro exI [of _ "Suc k"]) simp
  qed
qed

lemma rmatch_SeqE:
  assumes "m \<in> set (rmatch ic (Seq r1 r2) s caps)"
  obtains g where "g \<in> set (rmatch ic r1 s caps)" "m \<in> set (rmatch ic r2 (snd g) (fst g))"
  using assms by auto

text \<open>What a match of the scan pattern looks like.\<close>

lemma file_id_pattern_match:
  assumes "m \<in> set (rmatch False file_id_pattern u [])"
  shows "\<exists>d ds. is_digit d \<and> (\<forall>c \<in> set ds. is_digit c) \<and> prefix (''/files/'' @ d # ds) u \<and>
           fst m = [(1, d # ds)]"
proof -
  let ?tail = "Seq (Opt (cat [Lit ''/'', Alt (Lit ''download'') (Lit ''preview''),
                    Star (NoneOf [CHR 0x22, CHR 0x27])])) (Lit [])"
  have "prefix ''/files/'' u"
    using assms by (auto simp: file_id_pattern_def cat_def lit_prefix_exact split: if_splits)
  then obtain z where u: "u = ''/files/'' @ z" by (auto simp: prefix_def)
  have m1: "m \<in> set (rmatch False (Seq (Group 1 (Plus Digit)) ?tail) z [])"
    using assms by (auto simp: u file_id_pattern_def cat_def split: if_splits)
  from m1 obtain g where g: "g \<in> set (rmatch False (Group 1 (Plus Digit)) z [])"
    and m2: "m \<in> set (rmatch False ?tail (snd g) (fst g))"
    by (rule rmatch_SeqE)
  have caps: "fst m = fst g"
    using m2 by (auto simp: cat_def split: if_splits)
  from g obtain d rest r where z: "z = d # rest" and d: "is_digit d"
    and r: "r \<in> set (star_greedy False Digit rest)"
    and fg: "fst g = [(1, take (length z - length r) z)]"
    by (auto simp: Plus_def split: list.splits if_splits)
  from r obtain k where k: "r = drop k rest" "k \<le> length rest" "\<forall>c \<in> set (take k rest). is_digit c"
    using star_greedy_drop [of r False Digit rest] by auto
  have cap: "take (length z - length r) z = d # take k rest"
    using z k by simp
  have "prefix (''/files/'' @ d # take k rest) u"
    unfolding u z by (simp add: take_is_prefix)
  then show ?thesis
    using d k(3) caps fg cap by auto
qed

lemma match_here_rmatch:
  "match_here ic r u = Some m \<Longrightarrow>
   \<exists>x \<in> set (rmatch ic r u []). fst m = (0, take (snd m) u) # fst x"
  by (auto simp: match_here_def split: list.splits)

lemma finditer_from_matches:
  "c \<in> set (finditer_from ic r k s) \<Longrightarrow> \<exists>u m. suffix u s \<and> match_here ic r u = Some m \<and> fst m = c"
proof (induction ic r k s rule: finditer_from.induct)
  case (1 ic r k)
  then show ?case by (cases "match_here ic r []") auto
next
  case (2 ic r k c' s)
  then show ?case by (auto intro: suffix_ConsI)
next
  case (3 ic r c' s)
  show ?case
  proof (cases "match_here ic r (c' # s)")
    case None
    with 3 show ?thesis by (auto intro: suffix_ConsI)
  next
    case (Some m)
    with "3.prems" have "c = fst m \<or> c \<in> set (finditer_from ic r (snd m - 1) s)" by auto
    then show ?thesis
    proof
      assume "c = fst m"
      with Some show ?thesis by (intro exI [of _ "c' # s"]) auto
    next
      assume "c \<in> set (finditer_from ic r (snd m - 1) s)"
      with "3.IH"(2) [OF Some] show ?thesis by (auto intro: suffix_ConsI)
    qed
  qed
qed

lemma found_file_id_shape:
  assumes "x \<in> set (found_file_ids h)"
  shows "\<exists>d ds. x = d # ds \<and> is_digit d \<and> (\<forall>c \<in> set ds. is_digit c) \<and> sublist (''/files/'' @ [d]) h"
proof -
  from assms obtain c where c: "c \<in> set (finditer False file_id_pattern h)" and x: "x = group c 1"
    by (auto simp: found_file_ids_def)
  from c obtain u m where u: "suffix u h" and m: "match_here False file_id_pattern u = Some m"
    and cm: "fst m = c"
    using finditer_from_matches [of c False file_id_pattern 0 h] by (auto simp: finditer_def)
  from m obtain y where y: "y \<in> set (rmatch False file_id_pattern u [])"
    and "fst m = (0, take (snd m) u) # fst y"
    using match_here_rmatch by blast
  with file_id_pattern_match [OF y] cm obtain d ds where d: "is_digit d" "\<forall>c \<in> set ds. is_digit c"
    and p: "prefix (''/files/'' @ d # ds) u" and caps: "c = [(0, take (snd m) u), (1, d # ds)]"
    by auto
  from p have "prefix (''/files/'' @ [d]) u"
    by (auto simp: prefix_def)
  with u have "sublist (''/files/'' @ [d]) h"
    unfolding sublist_altdef' by blast
  with d caps x show ?thesis by (simp add: group_def)
qed

lemma found_file_ids_none: "\<not> numeric_file_ref h \<Longrightarrow> found_file_ids h = []"
proof (rule ccontr)
  assume n: "\<not> numeric_file_ref h" and "found_file_ids h \<noteq> []"
  then obtain x where "x \<in> set (found_file_ids h)" by (cases "found_file_ids h") auto
  from found_file_id_shape [OF this] n show False
    by (auto simp: numeric_file_ref_def is_digit_def)
qed

lemma digit_value_digit: "is_digit c \<Longrightarrow> \<exists>v. digit_value c = Some v"
  by (auto simp: is_digit_def digit_value_def)

lemma digits_to_int_digits: "\<forall>c \<in> set ds. is_digit c \<Longrightarrow> \<exists>n. digits_to_int acc ds = Some n"
proof (induction ds arbitrary: acc)
  case Nil
  then show ?case by simp
next
  case (Cons c ds)
  from Cons.prems have "is_digit c" by simp
  then obtain v where "digit_value c = Some v" using digit_value_digit by blast
  with Cons show ?case by simp
qed

lemma found_file_id_int: "x \<in> set (found_file_ids h) \<Longrightarrow> \<exists>n. py_int x = Some n"
  using found_file_id_shape [of x h] digits_to_int_digits [of x 0] by (auto simp: py_int_def)

lemma distinct_found_file_ids: "distinct (found_file_ids h)"
  by (simp add: found_file_ids_def)

subsection \<open>One turn of the loop\<close>

lemma fetch_state:
  assumes "download_canvas_file_object ext f dir s = (r, s')"
  shows "progress s s'" and "at_most_once s \<Longrightarrow> at_most_once s'"
    and "files_present s \<Longrightarrow> files_present s'" and "fs_dirs s' = fs_dirs s"
    and "r = Some p \<Longrightarrow> p = path_join dir (sanitize_filename ext (display_name f))"
proof -
  have s': "s' = snd (download_canvas_file_object ext f dir s)"
    and r: "r = fst (download_canvas_file_object ext f dir s)" using assms by simp_all
  show "progress s s'" unfolding s' by (rule progress_fetch)
  show "at_most_once s \<Longrightarrow> at_most_once s'" unfolding s' by (rule amo_fetch)
  show "files_present s \<Longrightarrow> files_present s'" unfolding s' by (rule fp_fetch)
  show "fs_dirs s' = fs_dirs s" unfolding s'
    by (cases f s rule: fetch_cases) (simp_all add: fetch_registered fetch_ok fetch_failed logger_def emit_def)
  show "r = Some p \<Longrightarrow> p = path_join dir (sanitize_filename ext (display_name f))"
    unfolding r by (rule fetch_path)
qed

lemma fs_dirs_logger: "fs_dirs (logger lvl m s) = fs_dirs s"
  by (simp add: logger_def emit_def)

lemma fs_dirs_handle_exn: "fs_dirs (handle_exn i e s) = fs_dirs s"
  by (simp add: handle_exn_def fs_dirs_logger split: exn.splits)

lemma rewrite_links_result:
  "rewrite_links ext h readme x f p (mh, ls) =
     (case rewrite_template (relpath p (parent readme)) of
        Inl e \<Rightarrow> Inl e
      | Inr t \<Rightarrow>
          Inr (if search True (img_pattern x) h = None
               then (sub True (a_pattern x) t (sub True (img_pattern x) t mh),
                     ls @ [md_link (link_text_of ext h x f) (relpath p (parent readme))])
               else (sub True (img_pattern x) t mh, ls)))"
  by (auto simp: rewrite_links_def Let_def split: sum.splits)

lemma rewrite_links_snd:
  "rewrite_links ext h readme x f p (mh, ls) = Inr r \<Longrightarrow>
   snd r = (if search True (img_pattern x) h = None
            then ls @ [md_link (link_text_of ext h x f) (relpath p (parent readme))] else ls)"
  by (auto simp: rewrite_links_result split: sum.splits)

lemma handle_exn_logger: "\<exists>l m. handle_exn x e s = logger l m s"
  by (cases e) (auto simp: handle_exn_def)

text \<open>
  One turn of the loop, in one equation: the file handle is asked for in both branches
  of line 108, the fetcher runs when the number is not in the set, and the local path is
  the same in both branches.
\<close>

lemma step_result:
  "process_file_id ext crs h dir readme x (mh, ls, s) =
     (case py_int x of
        None \<Rightarrow> (mh, ls, handle_exn x ValueError s)
      | Some n \<Rightarrow>
          (case get_file crs n of
             Inl e \<Rightarrow>
               (mh, ls,
                if n \<in> DOWNLOADED_FILE_IDS_GLOBAL s \<and> e = ResourceDoesNotExist
                then logger WARNING (CouldNotFindFileId n) s else handle_exn x e s)
           | Inr f \<Rightarrow>
               (let s' = (if n \<in> DOWNLOADED_FILE_IDS_GLOBAL s then s
                          else snd (download_canvas_file_object ext f dir s))
                in if n \<notin> DOWNLOADED_FILE_IDS_GLOBAL s \<and>
                      fst (download_canvas_file_object ext f dir s) = None
                   then (mh, ls, s')
                   else (case rewrite_links ext h readme x f
                                (path_join dir (sanitize_filename ext (display_name f))) (mh, ls) of
                           Inl e \<Rightarrow> (mh, ls, handle_exn x e s')
                         | Inr r \<Rightarrow> (fst r, snd r, s')))))"
proof (cases "py_int x")
  case None
  then show ?thesis by (simp add: process_file_id_def)
next
  case (Some n)
  show ?thesis
  proof (cases "get_file crs n")
    case (Inl e)
    with Some show ?thesis by (simp add: process_file_id_def)
  next
    case (Inr f)
    show ?thesis
    proof (cases "n \<in> DOWNLOADED_FILE_IDS_GLOBAL s")
      case True
      with Some Inr show ?thesis by (simp add: process_file_id_def Let_def)
    next
      case False
      obtain r s' where d: "download_canvas_file_object ext f dir s = (r, s')"
        by (cases "download_canvas_file_object ext f dir s")
      show ?thesis
      proof (cases r)
        case None
        with Some Inr False d show ?thesis by (simp add: process_file_id_def Let_def)
      next
        case (Some p)
        with d have "p = path_join dir (sanitize_filename ext (display_name f))"
          using fetch_path [of ext f dir s p] by simp
        with \<open>py_int x = Some n\<close> Inr False d Some show ?thesis
          by (simp add: process_file_id_def Let_def)
      qed
    qed
  qed
qed

text \<open>The state after a turn: the state before, after the fetcher or not, after a log line or not.\<close>

lemma step_state:
  obtains (same) "snd (snd (process_file_id ext crs h dir readme x (mh, ls, s))) = s"
  | (logged) l m where "snd (snd (process_file_id ext crs h dir readme x (mh, ls, s))) = logger l m s"
  | (fetched) f where
      "snd (snd (process_file_id ext crs h dir readme x (mh, ls, s))) =
         snd (download_canvas_file_object ext f dir s)"
  | (fetched_logged) f l m where
      "snd (snd (process_file_id ext crs h dir readme x (mh, ls, s))) =
         logger l m (snd (download_canvas_file_object ext f dir s))"
proof -
  have "snd (snd (process_file_id ext crs h dir readme x (mh, ls, s))) = s
    \<or> (\<exists>l m. snd (snd (process_file_id ext crs h dir readme x (mh, ls, s))) = logger l m s)
    \<or> (\<exists>f. snd (snd (process_file_id ext crs h dir readme x (mh, ls, s))) =
            snd (download_canvas_file_object ext f dir s))
    \<or> (\<exists>f l m. snd (snd (process_file_id ext crs h dir readme x (mh, ls, s))) =
            logger l m (snd (download_canvas_file_object ext f dir s)))"
    unfolding step_result
    using handle_exn_logger [of x _ s]
      handle_exn_logger [of x _ "snd (download_canvas_file_object ext _ dir s)"]
    by (auto simp: Let_def split: option.splits sum.splits) blast+
  with that show thesis by blast
qed

lemma step_progress:
  "progress s (snd (snd (process_file_id ext crs h dir readme x (mh, ls, s))))"
  by (cases rule: step_state [of ext crs h dir readme x mh ls s])
     (auto intro: progress_refl progress_logger progress_fetch progress_trans)

lemma step_at_most_once:
  "at_most_once s \<Longrightarrow> at_most_once (snd (snd (process_file_id ext crs h dir readme x (mh, ls, s))))"
  by (cases rule: step_state [of ext crs h dir readme x mh ls s])
     (auto simp: amo_logger intro: amo_fetch)

lemma step_files_present:
  "files_present s \<Longrightarrow> files_present (snd (snd (process_file_id ext crs h dir readme x (mh, ls, s))))"
  by (cases rule: step_state [of ext crs h dir readme x mh ls s])
     (auto simp: fp_logger intro: fp_fetch)

lemma fs_dirs_fetch: "fs_dirs (snd (download_canvas_file_object ext f dir s)) = fs_dirs s"
  using fetch_state(4) [of ext f dir s] by (cases "download_canvas_file_object ext f dir s") simp

lemma step_fs_dirs:
  "fs_dirs (snd (snd (process_file_id ext crs h dir readme x (mh, ls, s)))) = fs_dirs s"
  by (cases rule: step_state [of ext crs h dir readme x mh ls s])
     (auto simp: fs_dirs_logger fs_dirs_fetch)

text \<open>One turn of the loop, seen from the side list.\<close>

lemma step_links:
  "fst (snd (process_file_id ext crs h dir readme x (mh, ls, s))) = ls \<or>
   (\<exists>n f. py_int x = Some n \<and> get_file crs n = Inr f \<and> search True (img_pattern x) h = None \<and>
      fst (snd (process_file_id ext crs h dir readme x (mh, ls, s))) =
        ls @ [side_entry ext h dir readme x f])"
  unfolding step_result
  by (auto simp: Let_def side_entry_def split: option.splits sum.splits if_splits
      dest!: rewrite_links_snd)

lemma fetch_succeeds:
  "download_error f = None \<Longrightarrow>
   fst (download_canvas_file_object ext f dir s) = Some (path_join dir (sanitize_filename ext (display_name f)))"
  by (cases f s rule: fetch_cases) (simp_all add: fetch_registered fetch_ok)

lemma step_links_success:
  assumes "py_int x = Some n" and "get_file crs n = Inr f"
    and "download_error f = None \<or> n \<in> DOWNLOADED_FILE_IDS_GLOBAL s"
    and "search True (img_pattern x) h = None"
    and "rewrite_template (relpath (path_join dir (sanitize_filename ext (display_name f)))
           (parent readme)) = Inr t"
  shows "fst (snd (process_file_id ext crs h dir readme x (mh, ls, s))) =
           ls @ [side_entry ext h dir readme x f]"
proof -
  have "\<not> (n \<notin> DOWNLOADED_FILE_IDS_GLOBAL s \<and> fst (download_canvas_file_object ext f dir s) = None)"
    using assms(3) fetch_succeeds [of f ext dir s] by auto
  then show ?thesis
    unfolding step_result using assms
    by (simp add: Let_def rewrite_links_result side_entry_def)
qed

text \<open>One turn of the loop, seen from the \<open>download\<close> calls.\<close>

lemma download_calls_logger: "download_calls (trace (logger l m s)) = download_calls (trace s)"
  by (simp add: logger_def emit_def download_calls_append)

lemma download_calls_handle_exn: "download_calls (trace (handle_exn x e s)) = download_calls (trace s)"
  using handle_exn_logger [of x e s] by (auto simp: download_calls_logger)

lemma registry_handle_exn:
  "DOWNLOADED_FILE_IDS_GLOBAL (handle_exn x e s) = DOWNLOADED_FILE_IDS_GLOBAL s"
  using handle_exn_logger [of x e s] by (auto simp: logger_def emit_def)

lemma fetch_unregistered:
  assumes "cf_id f \<notin> DOWNLOADED_FILE_IDS_GLOBAL s"
  shows "map fst (download_calls (trace (snd (download_canvas_file_object ext f dir s)))) =
           map fst (download_calls (trace s)) @ [cf_id f]"
    and "DOWNLOADED_FILE_IDS_GLOBAL (snd (download_canvas_file_object ext f dir s))
           \<subseteq> insert (cf_id f) (DOWNLOADED_FILE_IDS_GLOBAL s)"
  using assms
  by (cases "download_error f"; simp add: fetch_ok fetch_failed download_calls_append; blast)+

lemma step_download:
  assumes "py_int x = Some n" and "get_file crs n = Inr f" and "cf_id f = n"
    and "n \<notin> DOWNLOADED_FILE_IDS_GLOBAL s"
  shows "map fst (download_calls (trace (snd (snd (process_file_id ext crs h dir readme x (mh, ls, s)))))) =
           map fst (download_calls (trace s)) @ [n]"
    and "DOWNLOADED_FILE_IDS_GLOBAL (snd (snd (process_file_id ext crs h dir readme x (mh, ls, s))))
           \<subseteq> insert n (DOWNLOADED_FILE_IDS_GLOBAL s)"
proof -
  have f: "cf_id f \<notin> DOWNLOADED_FILE_IDS_GLOBAL s" using assms by simp
  let ?s' = "snd (download_canvas_file_object ext f dir s)"
  have "snd (snd (process_file_id ext crs h dir readme x (mh, ls, s))) = ?s'
      \<or> (\<exists>e. snd (snd (process_file_id ext crs h dir readme x (mh, ls, s))) = handle_exn x e ?s')"
    unfolding step_result using assms by (auto simp: Let_def split: sum.splits)
  then show "map fst (download_calls (trace (snd (snd (process_file_id ext crs h dir readme x (mh, ls, s)))))) =
           map fst (download_calls (trace s)) @ [n]"
    and "DOWNLOADED_FILE_IDS_GLOBAL (snd (snd (process_file_id ext crs h dir readme x (mh, ls, s))))
           \<subseteq> insert n (DOWNLOADED_FILE_IDS_GLOBAL s)"
    using fetch_unregistered [OF f, of ext dir] assms(3)
    by (auto simp: download_calls_handle_exn registry_handle_exn)
qed

subsection \<open>The loop and the whole rewriter\<close>

lemma loop_Nil: "process_file_ids ext crs h dir readme [] a = a"
  by (simp add: process_file_ids_def)

lemma loop_Cons:
  "process_file_ids ext crs h dir readme (x # xs) a =
     process_file_ids ext crs h dir readme xs (process_file_id ext crs h dir readme x a)"
  by (simp add: process_file_ids_def)

text \<open>A property of the state that every turn keeps holds after the loop.\<close>

lemma loop_state_induct:
  assumes "P (snd (snd a))"
    and "\<And>mh ls s x. P s \<Longrightarrow> P (snd (snd (process_file_id ext crs h dir readme x (mh, ls, s))))"
  shows "P (snd (snd (process_file_ids ext crs h dir readme ids a)))"
  using assms(1)
proof (induction ids arbitrary: a)
  case Nil
  then show ?case by (simp add: loop_Nil)
next
  case (Cons x xs)
  obtain mh ls s where a: "a = (mh, ls, s)" by (cases a) auto
  have "P (snd (snd (process_file_id ext crs h dir readme x (mh, ls, s))))"
    using Cons.prems a by (intro assms(2)) simp
  then have "P (snd (snd (process_file_id ext crs h dir readme x a)))" by (simp add: a)
  then show ?case unfolding loop_Cons by (rule Cons.IH)
qed

lemma loop_progress:
  "progress (snd (snd a)) (snd (snd (process_file_ids ext crs h dir readme ids a)))"
  by (rule loop_state_induct [where P = "progress (snd (snd a))"])
     (auto intro: progress_refl progress_trans step_progress)

lemma loop_at_most_once:
  "at_most_once (snd (snd a)) \<Longrightarrow>
   at_most_once (snd (snd (process_file_ids ext crs h dir readme ids a)))"
  by (rule loop_state_induct [where P = at_most_once]) (auto intro: step_at_most_once)

lemma loop_files_present:
  "files_present (snd (snd a)) \<Longrightarrow>
   files_present (snd (snd (process_file_ids ext crs h dir readme ids a)))"
  by (rule loop_state_induct [where P = files_present]) (auto intro: step_files_present)

lemma loop_fs_dirs:
  "fs_dirs (snd (snd (process_file_ids ext crs h dir readme ids a))) = fs_dirs (snd (snd a))"
  by (rule loop_state_induct [where P = "\<lambda>s. fs_dirs s = fs_dirs (snd (snd a))"])
     (auto simp: step_fs_dirs)

text \<open>The side list only grows, and only by entries of identifiers outside every image.\<close>

lemma loop_links_origin:
  assumes "b \<in> set (fst (snd (process_file_ids ext crs h dir readme ids a)))"
  shows "b \<in> set (fst (snd a)) \<or>
         (\<exists>x \<in> set ids. \<exists>n f. py_int x = Some n \<and> get_file crs n = Inr f \<and>
            search True (img_pattern x) h = None \<and> b = side_entry ext h dir readme x f)"
  using assms
proof (induction ids arbitrary: a)
  case Nil
  then show ?case by (simp add: loop_Nil)
next
  case (Cons x xs)
  obtain mh ls s where a: "a = (mh, ls, s)" by (cases a) auto
  from Cons.IH [OF Cons.prems [unfolded loop_Cons]]
  consider "b \<in> set (fst (snd (process_file_id ext crs h dir readme x a)))"
    | "\<exists>y \<in> set xs. \<exists>n f. py_int y = Some n \<and> get_file crs n = Inr f \<and>
            search True (img_pattern y) h = None \<and> b = side_entry ext h dir readme y f"
    by blast
  then show ?case
  proof cases
    case 1
    with step_links [of ext crs h dir readme x mh ls s] a show ?thesis by auto
  next
    case 2
    then show ?thesis by auto
  qed
qed

lemma loop_links_mono:
  "set (fst (snd a)) \<subseteq> set (fst (snd (process_file_ids ext crs h dir readme ids a)))"
proof (induction ids arbitrary: a)
  case Nil
  then show ?case by (simp add: loop_Nil)
next
  case (Cons x xs)
  obtain mh ls s where a: "a = (mh, ls, s)" by (cases a) auto
  have "set (fst (snd a)) \<subseteq> set (fst (snd (process_file_id ext crs h dir readme x a)))"
    using step_links [of ext crs h dir readme x mh ls s] a by auto
  with Cons.IH [of "process_file_id ext crs h dir readme x a"] show ?case
    unfolding loop_Cons by blast
qed

lemma loop_links_success:
  assumes "x \<in> set ids" and "py_int x = Some n" and "get_file crs n = Inr f"
    and "download_error f = None \<or> n \<in> DOWNLOADED_FILE_IDS_GLOBAL (snd (snd a))"
    and "search True (img_pattern x) h = None"
    and "rewrite_template (relpath (path_join dir (sanitize_filename ext (display_name f)))
           (parent readme)) = Inr t"
  shows "side_entry ext h dir readme x f \<in> set (fst (snd (process_file_ids ext crs h dir readme ids a)))"
  using assms(1,4)
proof (induction ids arbitrary: a)
  case Nil
  then show ?case by simp
next
  case (Cons y ys)
  obtain mh ls s where a: "a = (mh, ls, s)" by (cases a) auto
  let ?a' = "process_file_id ext crs h dir readme y a"
  show ?case
  proof (cases "x = y")
    case True
    have "side_entry ext h dir readme x f \<in> set (fst (snd ?a'))"
      using step_links_success [OF assms(2,3) _ assms(5,6), of s mh ls] Cons.prems(2) a True
      by simp
    with loop_links_mono [of ?a' ext crs h dir readme ys] show ?thesis
      unfolding loop_Cons by blast
  next
    case False
    with Cons.prems have x: "x \<in> set ys" by simp
    have "progress (snd (snd a)) (snd (snd ?a'))"
      using step_progress [of s ext crs h dir readme y mh ls] a by simp
    then have "DOWNLOADED_FILE_IDS_GLOBAL (snd (snd a)) \<subseteq> DOWNLOADED_FILE_IDS_GLOBAL (snd (snd ?a'))"
      by (simp add: progress_def)
    with Cons.prems(2) have "download_error f = None \<or> n \<in> DOWNLOADED_FILE_IDS_GLOBAL (snd (snd ?a'))"
      by blast
    from Cons.IH [OF x this] show ?thesis unfolding loop_Cons .
  qed
qed

text \<open>One \<open>download\<close> call for each identifier, when they resolve and denote different numbers.\<close>

lemma loop_downloads:
  assumes "distinct (map py_int ids)"
    and "\<forall>x \<in> set ids. \<exists>n f. py_int x = Some n \<and> n \<notin> DOWNLOADED_FILE_IDS_GLOBAL (snd (snd a)) \<and>
           get_file crs n = Inr f \<and> cf_id f = n"
  shows "map (\<lambda>c. Some (fst c)) (download_calls (trace (snd (snd (process_file_ids ext crs h dir readme ids a))))) =
         map (\<lambda>c. Some (fst c)) (download_calls (trace (snd (snd a)))) @ map py_int ids"
  using assms
proof (induction ids arbitrary: a)
  case Nil
  then show ?case by (simp add: loop_Nil)
next
  case (Cons y ys)
  obtain mh ls s where a: "a = (mh, ls, s)" by (cases a) auto
  let ?a' = "process_file_id ext crs h dir readme y a"
  from Cons.prems(2) obtain n f where y: "py_int y = Some n" "n \<notin> DOWNLOADED_FILE_IDS_GLOBAL s"
    "get_file crs n = Inr f" "cf_id f = n"
    using a by auto
  have calls: "map fst (download_calls (trace (snd (snd ?a')))) = map fst (download_calls (trace s)) @ [n]"
    and reg: "DOWNLOADED_FILE_IDS_GLOBAL (snd (snd ?a')) \<subseteq> insert n (DOWNLOADED_FILE_IDS_GLOBAL s)"
    using step_download [OF y(1,3,4,2), of ext h dir readme mh ls] a by simp_all
  have "distinct (map py_int ys)" using Cons.prems(1) by simp
  moreover have "\<forall>x \<in> set ys. \<exists>n f. py_int x = Some n \<and> n \<notin> DOWNLOADED_FILE_IDS_GLOBAL (snd (snd ?a')) \<and>
           get_file crs n = Inr f \<and> cf_id f = n"
  proof
    fix x assume x: "x \<in> set ys"
    with Cons.prems(2) obtain k g where k: "py_int x = Some k" "k \<notin> DOWNLOADED_FILE_IDS_GLOBAL s"
      "get_file crs k = Inr g" "cf_id g = k"
      using a by auto
    from x Cons.prems(1) y(1) k(1) have "k \<noteq> n" by force
    with reg k show "\<exists>n f. py_int x = Some n \<and> n \<notin> DOWNLOADED_FILE_IDS_GLOBAL (snd (snd ?a')) \<and>
           get_file crs n = Inr f \<and> cf_id f = n" by auto
  qed
  ultimately have "map (\<lambda>c. Some (fst c)) (download_calls (trace (snd (snd (process_file_ids ext crs h dir readme ys ?a'))))) =
         map (\<lambda>c. Some (fst c)) (download_calls (trace (snd (snd ?a')))) @ map py_int ys"
    by (rule Cons.IH)
  moreover have "map (\<lambda>c. Some (fst c)) (download_calls (trace (snd (snd ?a')))) =
      map (\<lambda>c. Some (fst c)) (download_calls (trace s)) @ [Some n]"
    using arg_cong [OF calls, of "map Some"] by (simp add: comp_def)
  ultimately show ?case unfolding loop_Cons using y(1) a by simp
qed

text \<open>The link rewriter as a whole.\<close>

lemma extract_nonempty:
  "h \<noteq> [] \<Longrightarrow>
   extract_and_download_embedded_files ext crs (Some h) dir readme s =
     (let r = process_file_ids ext crs h dir readme (found_file_ids h) (h, [], mkdir dir s)
      in (Some (fst r), remdups (fst (snd r)), snd (snd r)))"
  by (simp add: extract_and_download_embedded_files_def)

lemma extract_cases:
  obtains (absent) "html = None"
      "extract_and_download_embedded_files ext crs html dir readme s = (None, [], s)"
  | (empty) "html = Some []"
      "extract_and_download_embedded_files ext crs html dir readme s = (Some [], [], s)"
  | (scan) h where "html = Some h" "h \<noteq> []"
      "extract_and_download_embedded_files ext crs html dir readme s =
         (Some (fst (process_file_ids ext crs h dir readme (found_file_ids h) (h, [], mkdir dir s))),
          remdups (fst (snd (process_file_ids ext crs h dir readme (found_file_ids h) (h, [], mkdir dir s)))),
          snd (snd (process_file_ids ext crs h dir readme (found_file_ids h) (h, [], mkdir dir s))))"
  by (cases html) (auto simp: extract_and_download_embedded_files_def Let_def)

lemma extract_progress:
  "progress s (snd (snd (extract_and_download_embedded_files ext crs html dir readme s)))"
proof (cases rule: extract_cases [where html = html and ext = ext and crs = crs and dir = dir and readme = readme and s = s])
  case (scan h)
  have "progress (mkdir dir s)
          (snd (snd (process_file_ids ext crs h dir readme (found_file_ids h) (h, [], mkdir dir s))))"
    using loop_progress [of "(h, [], mkdir dir s)"] by simp
  with progress_mkdir [of s dir] show ?thesis
    unfolding scan(3) by (auto intro: progress_trans)
qed (simp_all add: progress_refl)

lemma extract_at_most_once:
  "at_most_once s \<Longrightarrow>
   at_most_once (snd (snd (extract_and_download_embedded_files ext crs html dir readme s)))"
proof (cases rule: extract_cases [where html = html and ext = ext and crs = crs and dir = dir and readme = readme and s = s])
  case (scan h)
  assume "at_most_once s"
  with loop_at_most_once [of "(h, [], mkdir dir s)" ext crs h dir readme "found_file_ids h"]
  show ?thesis unfolding scan(3) by (simp add: amo_mkdir)
qed simp_all

lemma extract_files_present:
  "files_present s \<Longrightarrow>
   files_present (snd (snd (extract_and_download_embedded_files ext crs html dir readme s)))"
proof (cases rule: extract_cases [where html = html and ext = ext and crs = crs and dir = dir and readme = readme and s = s])
  case (scan h)
  assume "files_present s"
  with loop_files_present [of "(h, [], mkdir dir s)" ext crs h dir readme "found_file_ids h"]
  show ?thesis unfolding scan(3) by (simp add: fp_mkdir)
qed simp_all

subsection \<open>The callers of the rewriter\<close>

text \<open>The item renderer, the module writer and the course driver keep what the rewriter keeps.\<close>

lemma item_body_state:
  "progress s (fst (snd (item_body ext crs item dir readme s)))"
  "at_most_once s \<Longrightarrow> at_most_once (fst (snd (item_body ext crs item dir readme s)))"
  "files_present s \<Longrightarrow> files_present (fst (snd (item_body ext crs item dir readme s)))"
proof -
  show "progress s (fst (snd (item_body ext crs item dir readme s)))"
    by (auto simp: item_body_def Let_def progress_refl progress_logger extract_progress
        split: option.splits sum.splits prod.splits dest: fetch_state(1))
  show "at_most_once s \<Longrightarrow> at_most_once (fst (snd (item_body ext crs item dir readme s)))"
    by (auto simp: item_body_def Let_def amo_logger extract_at_most_once
        split: option.splits sum.splits prod.splits dest: fetch_state(2))
  show "files_present s \<Longrightarrow> files_present (fst (snd (item_body ext crs item dir readme s)))"
    by (auto simp: item_body_def Let_def fp_logger extract_files_present
        split: option.splits sum.splits prod.splits dest: fetch_state(3))
qed

lemma item_state:
  "progress s (snd (process_module_item ext crs item mp s))"
  "at_most_once s \<Longrightarrow> at_most_once (snd (process_module_item ext crs item mp s))"
  "files_present s \<Longrightarrow> files_present (snd (process_module_item ext crs item mp s))"
proof -
  let ?s1 = "mkdir (path_join mp ''_files'') (logger INFO (ProcessingItem (title item) (item_type item)) s)"
  let ?b = "item_body ext crs item (path_join mp ''_files'') (path_join mp ''README.md'') ?s1"
  have 1: "progress s ?s1"
    by (blast intro: progress_trans progress_logger progress_mkdir)
  have 2: "progress s (fst (snd ?b))"
    using 1 item_body_state(1) by (rule progress_trans)
  have 3: "progress s (logger l m (fst (snd ?b)))" for l m
    using 2 progress_logger by (rule progress_trans)
  show "progress s (snd (process_module_item ext crs item mp s))"
    using 2 3 by (simp add: process_module_item_def Let_def split: option.splits exn.splits)
  show "at_most_once s \<Longrightarrow> at_most_once (snd (process_module_item ext crs item mp s))"
    using item_body_state(2) [of ?s1 ext crs item "path_join mp ''_files''" "path_join mp ''README.md''"]
    by (simp add: process_module_item_def Let_def amo_logger amo_mkdir split: option.splits exn.splits)
  show "files_present s \<Longrightarrow> files_present (snd (process_module_item ext crs item mp s))"
    using item_body_state(3) [of ?s1 ext crs item "path_join mp ''_files''" "path_join mp ''README.md''"]
    by (simp add: process_module_item_def Let_def fp_logger fp_mkdir split: option.splits exn.splits)
qed

lemma items_state:
  "progress (snd a) (snd (process_items ext crs mp items a))"
  "at_most_once (snd a) \<Longrightarrow> at_most_once (snd (process_items ext crs mp items a))"
  "files_present (snd a) \<Longrightarrow> files_present (snd (process_items ext crs mp items a))"
proof -
  show "progress (snd a) (snd (process_items ext crs mp items a))"
  proof (induction items arbitrary: a)
    case Nil
    show ?case by (simp add: progress_refl)
  next
    case (Cons item items)
    let ?r = "process_module_item ext crs item mp (snd a)"
    from item_state(1) [of "snd a" ext crs item mp] Cons.IH [of "(fst a @ fst ?r, snd ?r)"]
    show ?case by (auto simp: Let_def intro: progress_trans)
  qed
  show "at_most_once (snd a) \<Longrightarrow> at_most_once (snd (process_items ext crs mp items a))"
    by (induction items arbitrary: a) (simp_all add: Let_def item_state(2))
  show "files_present (snd a) \<Longrightarrow> files_present (snd (process_items ext crs mp items a))"
    by (induction items arbitrary: a) (simp_all add: Let_def item_state(3))
qed

lemma module_state:
  "progress s (process_module ext untitled crs m cp s)"
  "at_most_once s \<Longrightarrow> at_most_once (process_module ext untitled crs m cp s)"
  "files_present s \<Longrightarrow> files_present (process_module ext untitled crs m cp s)"
proof -
  let ?mp = "path_join cp (sanitize_filename ext (name_or (cm_name m) (untitled (cm_id m))))"
  let ?s1 = "mkdir ?mp (logger INFO (ProcessingModule (cm_name m)) s)"
  have 1: "progress s ?s1"
    by (blast intro: progress_trans progress_logger progress_mkdir)
  show "progress s (process_module ext untitled crs m cp s)"
  proof (cases "get_module_items m")
    case (Inl e)
    have "progress ?s1 (write_file (path_join ?mp ''README.md'') t (logger ERROR msg ?s1))" for t msg
      by (blast intro: progress_trans progress_logger progress_write_file)
    with 1 Inl show ?thesis
      by (auto simp: process_module_def Let_def intro: progress_trans)
  next
    case (Inr items)
    let ?r = "process_items ext crs ?mp items (''# Module: '' @ fmt (cm_name m) @ nl @ nl, ?s1)"
    have "progress ?s1 (snd ?r)" using items_state(1) [of "(''# Module: '' @ fmt (cm_name m) @ nl @ nl, ?s1)"] by simp
    moreover have "progress (snd ?r) (logger l msg (write_file p t (snd ?r)))" for l msg p t
      by (blast intro: progress_trans progress_logger progress_write_file)
    ultimately have "progress s (logger l msg (write_file p t (snd ?r)))" for l msg p t
      using 1 by (blast intro: progress_trans)
    with Inr show ?thesis by (simp add: process_module_def Let_def)
  qed
  show "at_most_once s \<Longrightarrow> at_most_once (process_module ext untitled crs m cp s)"
    by (cases "get_module_items m")
       (simp_all add: process_module_def Let_def amo_logger amo_mkdir amo_write_file items_state(2))
  show "files_present s \<Longrightarrow> files_present (process_module ext untitled crs m cp s)"
    by (cases "get_module_items m")
       (simp_all add: process_module_def Let_def fp_logger fp_mkdir fp_write_file items_state(3))
qed

lemma modules_state:
  "progress s (process_modules ext untitled crs cp ms s)"
  "at_most_once s \<Longrightarrow> at_most_once (process_modules ext untitled crs cp ms s)"
  "files_present s \<Longrightarrow> files_present (process_modules ext untitled crs cp ms s)"
proof -
  show "progress s (process_modules ext untitled crs cp ms s)"
  proof (induction ms arbitrary: s)
    case Nil
    show ?case by (simp add: progress_refl)
  next
    case (Cons m ms)
    from module_state(1) [of s ext untitled crs m cp] Cons.IH [of "process_module ext untitled crs m cp s"]
    show ?case by (auto intro: progress_trans)
  qed
  show "at_most_once s \<Longrightarrow> at_most_once (process_modules ext untitled crs cp ms s)"
    by (induction ms arbitrary: s) (simp_all add: module_state(2))
  show "files_present s \<Longrightarrow> files_present (process_modules ext untitled crs cp ms s)"
    by (induction ms arbitrary: s) (simp_all add: module_state(3))
qed

lemma course_state:
  "progress s (process_course ext untitled crs out s)"
  "at_most_once s \<Longrightarrow> at_most_once (process_course ext untitled crs out s)"
  "files_present s \<Longrightarrow> files_present (process_course ext untitled crs out s)"
proof -
  let ?cp = "path_join out (sanitize_filename ext (name_or (course_name crs) (untitled (course_id crs))))"
  let ?s1 = "mkdir ?cp (logger INFO (StartingCourse (course_name crs) (course_id crs)) s)"
  have 1: "progress s ?s1"
    by (blast intro: progress_trans progress_logger progress_mkdir)
  have 2: "progress ?s1 (logger l msg ?s1)" for l msg by (rule progress_logger)
  have 3: "progress ?s1 (process_modules ext untitled crs ?cp ms ?s1)" for ms by (rule modules_state(1))
  have "progress ?s1 (case get_modules crs of
                  Inr modules \<Rightarrow> process_modules ext untitled crs ?cp modules ?s1
                | Inl Unauthorized \<Rightarrow> logger ERROR (UnauthorizedModules (course_name crs)) ?s1
                | Inl Forbidden \<Rightarrow> logger ERROR (ForbiddenModules (course_name crs)) ?s1
                | Inl e \<Rightarrow> logger ERROR (UnexpectedModulesError (course_name crs) e) ?s1)"
    using 2 3 by (simp split: sum.splits exn.splits)
  with 1 show "progress s (process_course ext untitled crs out s)"
    unfolding process_course_def Let_def by (blast intro: progress_trans progress_logger)
  show "at_most_once s \<Longrightarrow> at_most_once (process_course ext untitled crs out s)"
    by (simp add: process_course_def Let_def amo_logger amo_mkdir modules_state(2)
        split: sum.splits exn.splits)
  show "files_present s \<Longrightarrow> files_present (process_course ext untitled crs out s)"
    by (simp add: process_course_def Let_def fp_logger fp_mkdir modules_state(3)
        split: sum.splits exn.splits)
qed

lemma courses_state:
  "at_most_once s \<Longrightarrow> at_most_once (process_courses ext untitled gc out cs s)"
  "files_present s \<Longrightarrow> files_present (process_courses ext untitled gc out cs s)"
proof -
  show "at_most_once s \<Longrightarrow> at_most_once (process_courses ext untitled gc out cs s)"
    by (induction cs arbitrary: s)
       (simp_all add: course_state(2) amo_logger split: option.splits sum.splits)
  show "files_present s \<Longrightarrow> files_present (process_courses ext untitled gc out cs s)"
    by (induction cs arbitrary: s)
       (simp_all add: course_state(3) fp_logger split: option.splits sum.splits)
qed

lemma initial_invariants: "at_most_once initial_state" "files_present initial_state"
  by (simp_all add: at_most_once_def files_present_def initial_state_def)

lemma relpath_Nil: "relpath xs [] = xs"
  by (cases xs) simp_all

lemma relpath_below: "relpath (mp @ xs) mp = xs"
  by (induction mp) (simp_all add: relpath_Nil)

subsection \<open>Lists, notices and replacement templates\<close>

lemma distinct_count_one: "distinct xs \<Longrightarrow> x \<in> set xs \<Longrightarrow> count_list xs x = 1"
  by (induction xs) auto

lemma item_body_fetch_error:
  "fetch_error crs item = Some e \<Longrightarrow> snd (snd (item_body ext crs item dir readme s)) = Some e"
  by (auto simp: fetch_error_def item_body_def Let_def split: if_splits sum.splits option.splits)

text \<open>The replacement template of a path \<open>_files/name\<close>, as the item renderer asks for it.\<close>

lemma parse_template_tail:
  "parse_template 3 [CHR 0x5C, CHR ''2'', CHR 0x5C, CHR ''3''] = Inr [GroupRef 2, GroupRef 3]"
  by code_simp

lemma parse_template_plain:
  assumes "backslash \<notin> set t"
  shows "parse_template 3 (t @ [CHR 0x5C, CHR ''2'', CHR 0x5C, CHR ''3'']) =
           Inr (map (\<lambda>c. Text [c]) t @ [GroupRef 2, GroupRef 3])"
  using assms
proof (induction t)
  case Nil
  show ?case using parse_template_tail by simp
next
  case (Cons c t)
  obtain d u where du: "t @ [CHR 0x5C, CHR ''2'', CHR 0x5C, CHR ''3''] = d # u"
    by (cases "t @ [CHR 0x5C, CHR ''2'', CHR 0x5C, CHR ''3'']") auto
  from Cons.prems have "c \<noteq> backslash" by auto
  then have "parse_template 3 (c # d # u) = add_part (Text [c]) (parse_template 3 (d # u))"
    by simp
  with Cons du show ?case by (simp add: add_part_def)
qed

lemma renderer_template:
  assumes "backslash \<notin> set name"
  shows "rewrite_template (relpath (path_join (path_join module_path ''_files'') name)
           (parent (path_join module_path ''README.md''))) =
         Inr (GroupRef 1 # map (\<lambda>c. Text [c]) (''_files/'' @ name) @ [GroupRef 2, GroupRef 3])"
proof -
  have rel: "relpath (path_join (path_join module_path ''_files'') name)
           (parent (path_join module_path ''README.md'')) = [''_files'', name]"
    using relpath_below [of module_path "[''_files'', name]"]
    by (simp add: parent_def path_join_def)
  have plain: "backslash \<notin> set (''_files/'' @ name)"
    using assms by (simp add: backslash_def)
  have "parse_template 3 (CHR 0x5C # CHR ''1'' # ''_files/'' @ name @ [CHR 0x5C, CHR ''2'', CHR 0x5C, CHR ''3'']) =
      add_group 3 1 (parse_template 3 ((''_files/'' @ name) @ [CHR 0x5C, CHR ''2'', CHR 0x5C, CHR ''3'']))"
    by (simp add: backslash_def is_digit_def number_def digit_nat_def)
  also have "\<dots> = Inr (GroupRef 1 # map (\<lambda>c. Text [c]) (''_files/'' @ name) @ [GroupRef 2, GroupRef 3])"
    unfolding parse_template_plain [OF plain] by (simp add: add_group_def add_part_def)
  finally show ?thesis
    by (simp add: rewrite_template_def template_source_def rel path_str_def)
qed

subsection \<open>The image substitution\<close>

text \<open>
  What \<open>sub\<close> does to a string: the text in which no match starts is copied, a match is
  replaced by the expanded template, and a string without a match comes back as it is.
\<close>

lemma sub_from_covered: "sub_from ic r t (length m) (m @ b) = sub_from ic r t 0 b"
  by (induction m) simp_all

lemma sub_at_match:
  assumes "match_here ic r (m @ b) = Some (g, length m)" and "m \<noteq> []"
  shows "sub ic r t (m @ b) = expand t g @ sub ic r t b"
proof -
  from assms(2) obtain c m' where m: "m = c # m'" by (cases m) auto
  show ?thesis
    using assms(1) unfolding m sub_def by (simp add: sub_from_covered)
qed

lemma sub_before_match:
  assumes "\<forall>i < length a. match_here ic r (drop i (a @ b)) = None"
  shows "sub ic r t (a @ b) = a @ sub ic r t b"
  using assms
proof (induction a)
  case Nil
  show ?case by simp
next
  case (Cons c a)
  from Cons.prems have 0: "match_here ic r (c # a @ b) = None" by force
  have "\<forall>i < length a. match_here ic r (drop i (a @ b)) = None"
  proof (intro allI impI)
    fix i assume "i < length a"
    then have "Suc i < length (c # a)" by simp
    with Cons.prems have "match_here ic r (drop (Suc i) ((c # a) @ b)) = None" by blast
    then show "match_here ic r (drop i (a @ b)) = None" by simp
  qed
  from Cons.IH [OF this] 0 show ?case by (simp add: sub_def)
qed

lemma sub_no_match: "search ic r s = None \<Longrightarrow> sub ic r t s = s"
  unfolding sub_def
  by (induction s) (auto split: option.splits)

text \<open>A turn of the loop for an identifier that the image pattern finds in the fragment.\<close>

lemma step_image_only:
  assumes "search True (img_pattern x) h \<noteq> None"
  shows "fst (snd (process_file_id ext crs h dir readme x (mh, ls, s))) = ls"
    and "fst (process_file_id ext crs h dir readme x (mh, ls, s)) = mh \<or>
         (\<exists>n f t. py_int x = Some n \<and> get_file crs n = Inr f \<and>
            rewrite_template (relpath (path_join dir (sanitize_filename ext (display_name f)))
              (parent readme)) = Inr t \<and>
            fst (process_file_id ext crs h dir readme x (mh, ls, s)) =
              sub True (img_pattern x) t mh)"
  unfolding step_result using assms
  by (auto simp: Let_def rewrite_links_result split: option.splits sum.splits)

lemma step_image_success:
  assumes "search True (img_pattern x) h \<noteq> None"
    and "py_int x = Some n" and "get_file crs n = Inr f"
    and "download_error f = None \<or> n \<in> DOWNLOADED_FILE_IDS_GLOBAL s"
    and "rewrite_template (relpath (path_join dir (sanitize_filename ext (display_name f)))
           (parent readme)) = Inr t"
  shows "fst (process_file_id ext crs h dir readme x (mh, ls, s)) = sub True (img_pattern x) t mh"
proof -
  have "\<not> (n \<notin> DOWNLOADED_FILE_IDS_GLOBAL s \<and> fst (download_canvas_file_object ext f dir s) = None)"
    using assms(4) fetch_succeeds [of f ext dir s] by auto
  then show ?thesis
    unfolding step_result using assms
    by (auto simp: Let_def rewrite_links_result)
qed

section \<open>The properties\<close>

subsection \<open>C1: a reference from a second module\<close>

text \<open>
  Claim C1 says that every later reference to a downloaded file resolves to the path of
  the download, and that every relative path written into a document leads to a file
  under the \<open>_files\<close> directory of that document's module. The code does not do this.
  \<open>DOWNLOADED_FILE_IDS_GLOBAL\<close> holds identifiers and no paths: for an identifier in the
  set the fetcher (lines 56 to 59) and the rewriter (lines 113 to 115) put the path
  together from the directory of the module that refers to the file, while the comment of
  line 58 asks for the local path of the downloaded file and the other branch (lines 61 to
  68) returns the path it has written.

  In the run below both modules \<open>Y\<close> and \<open>Z\<close> of course \<open>X\<close> hold a file item for file 42,
  and \<open>Z\<close> a page that shows it. There is one call of \<open>download\<close>, which writes
  \<open>X/Y/_files/d.png\<close>. For module \<open>Z\<close> the fetcher returns \<open>X/Z/_files/d.png\<close>, no file is
  there at the end of the run, and the document of \<open>Z\<close> is written with a link and an image
  source \<open>_files/d.png\<close>, which lead to that missing file.
\<close>

theorem second_module_dead_link:
  "download_calls (trace two_module_run) = [(42, [''X'', ''Y'', ''_files'', ''d.png''])]
   \<and> [''X'', ''Y'', ''_files'', ''d.png''] \<in> fs_files two_module_run
   \<and> fst (download_canvas_file_object plain_ext (sample_file None 42) files_Z after_download) =
       Some [''X'', ''Z'', ''_files'', ''d.png'']
   \<and> [''X'', ''Z'', ''_files'', ''d.png''] \<notin> fs_files two_module_run
   \<and> WriteFile [''X'', ''Z'', ''README.md'']
        (''# Module: Z'' @ [CHR 0x0A, CHR 0x0A] @
         ''* **File:** [d.png](_files/d.png)'' @ [CHR 0x0A, CHR 0x0A] @ ''---'' @ [CHR 0x0A, CHR 0x0A] @
         ''## Pic'' @ [CHR 0x0A, CHR 0x0A] @
         ''<img src='' @ [CHR 0x22] @ ''_files/d.png'' @ [CHR 0x22] @ ''>'' @
         [CHR 0x0A] @ ''---'' @ [CHR 0x0A, CHR 0x0A])
       \<in> set (trace two_module_run)"
  by code_simp

subsection \<open>C2: image sources and anchor targets\<close>

text \<open>
  Claim C2, as amended. The two passes are not independent: the anchor pass (the rewriting
  of the anchor targets and the bullet of the side list) runs for an identifier only when
  the image pattern of line 137 finds no match in the original fragment (line 142). The
  image pattern matches an \<open>img\<close> tag, in any letter case, that has a \<open>src\<close> attribute in
  double quotes whose value contains \<open>/files/\<close> followed by the identifier.

  Every entry of the returned side list belongs to an identifier of the fragment for
  which the image pattern finds no match. For an identifier for which it finds one, the
  turn of the loop leaves the side list as it is, and the fragment either as it is (when
  the file is not resolved or not fetched, or the replacement is rejected) or changed by
  the image substitution alone; it is the image substitution whenever the file is
  resolved and fetched and the replacement is accepted. The image substitution copies the
  text in which no match of the image pattern starts, replaces a match by the rewritten
  tag, and leaves a rest without a match as it is: the anchors outside the matched image
  tags keep their targets.
\<close>

theorem anchor_pass_only_without_image:
  "(\<forall>e \<in> set (fst (snd (extract_and_download_embedded_files ext crs (Some h) files_subdir readme s))).
      \<exists>x \<in> set (found_file_ids h). \<exists>n f. py_int x = Some n \<and> get_file crs n = Inr f \<and>
        search True (img_pattern x) h = None \<and> e = side_entry ext h files_subdir readme x f)
   \<and> (search True (img_pattern x) h \<noteq> None \<longrightarrow>
        fst (snd (process_file_id ext crs h files_subdir readme x (mh, ls, s))) = ls \<and>
        (fst (process_file_id ext crs h files_subdir readme x (mh, ls, s)) = mh \<or>
         (\<exists>n f t. py_int x = Some n \<and> get_file crs n = Inr f \<and>
            rewrite_template (relpath (path_join files_subdir (sanitize_filename ext (display_name f)))
              (parent readme)) = Inr t \<and>
            fst (process_file_id ext crs h files_subdir readme x (mh, ls, s)) =
              sub True (img_pattern x) t mh)) \<and>
        (\<forall>n f t. py_int x = Some n \<and> get_file crs n = Inr f \<and>
            (download_error f = None \<or> n \<in> DOWNLOADED_FILE_IDS_GLOBAL s) \<and>
            rewrite_template (relpath (path_join files_subdir (sanitize_filename ext (display_name f)))
              (parent readme)) = Inr t \<longrightarrow>
            fst (process_file_id ext crs h files_subdir readme x (mh, ls, s)) =
              sub True (img_pattern x) t mh))
   \<and> ((\<forall>i < length a. match_here True (img_pattern x) (drop i (a @ b)) = None) \<longrightarrow>
        sub True (img_pattern x) t (a @ b) = a @ sub True (img_pattern x) t b)
   \<and> (m \<noteq> [] \<and> match_here True (img_pattern x) (m @ b) = Some (g, length m) \<longrightarrow>
        sub True (img_pattern x) t (m @ b) = expand t g @ sub True (img_pattern x) t b)
   \<and> (search True (img_pattern x) b = None \<longrightarrow> sub True (img_pattern x) t b = b)"
proof -
  have 1: "\<exists>x \<in> set (found_file_ids h). \<exists>n f. py_int x = Some n \<and> get_file crs n = Inr f \<and>
        search True (img_pattern x) h = None \<and> e = side_entry ext h files_subdir readme x f"
    if e: "e \<in> set (fst (snd (extract_and_download_embedded_files ext crs (Some h) files_subdir readme s)))"
    for e
  proof -
    let ?a = "(h, [] :: string list, mkdir files_subdir s)"
    from e have ne: "h \<noteq> []" by (auto simp: extract_and_download_embedded_files_def)
    with e have "e \<in> set (fst (snd (process_file_ids ext crs h files_subdir readme (found_file_ids h) ?a)))"
      by (simp add: extract_nonempty Let_def)
    from loop_links_origin [OF this] show ?thesis by simp
  qed
  have 2: "fst (snd (process_file_id ext crs h files_subdir readme x (mh, ls, s))) = ls \<and>
        (fst (process_file_id ext crs h files_subdir readme x (mh, ls, s)) = mh \<or>
         (\<exists>n f t. py_int x = Some n \<and> get_file crs n = Inr f \<and>
            rewrite_template (relpath (path_join files_subdir (sanitize_filename ext (display_name f)))
              (parent readme)) = Inr t \<and>
            fst (process_file_id ext crs h files_subdir readme x (mh, ls, s)) =
              sub True (img_pattern x) t mh)) \<and>
        (\<forall>n f t. py_int x = Some n \<and> get_file crs n = Inr f \<and>
            (download_error f = None \<or> n \<in> DOWNLOADED_FILE_IDS_GLOBAL s) \<and>
            rewrite_template (relpath (path_join files_subdir (sanitize_filename ext (display_name f)))
              (parent readme)) = Inr t \<longrightarrow>
            fst (process_file_id ext crs h files_subdir readme x (mh, ls, s)) =
              sub True (img_pattern x) t mh)"
    if found: "search True (img_pattern x) h \<noteq> None"
  proof (intro conjI allI impI)
    show "fst (snd (process_file_id ext crs h files_subdir readme x (mh, ls, s))) = ls"
      by (rule step_image_only(1) [OF found])
    show "fst (process_file_id ext crs h files_subdir readme x (mh, ls, s)) = mh \<or>
         (\<exists>n f t. py_int x = Some n \<and> get_file crs n = Inr f \<and>
            rewrite_template (relpath (path_join files_subdir (sanitize_filename ext (display_name f)))
              (parent readme)) = Inr t \<and>
            fst (process_file_id ext crs h files_subdir readme x (mh, ls, s)) =
              sub True (img_pattern x) t mh)"
      by (rule step_image_only(2) [OF found])
    fix n f t
    assume "py_int x = Some n \<and> get_file crs n = Inr f \<and>
            (download_error f = None \<or> n \<in> DOWNLOADED_FILE_IDS_GLOBAL s) \<and>
            rewrite_template (relpath (path_join files_subdir (sanitize_filename ext (display_name f)))
              (parent readme)) = Inr t"
    with found show "fst (process_file_id ext crs h files_subdir readme x (mh, ls, s)) =
              sub True (img_pattern x) t mh"
      by (intro step_image_success [where n = n and f = f]) simp_all
  qed
  have 3: "sub True (img_pattern x) t (a @ b) = a @ sub True (img_pattern x) t b"
    if "\<forall>i < length a. match_here True (img_pattern x) (drop i (a @ b)) = None"
    using that by (rule sub_before_match)
  have 4: "sub True (img_pattern x) t (m @ b) = expand t g @ sub True (img_pattern x) t b"
    if "m \<noteq> [] \<and> match_here True (img_pattern x) (m @ b) = Some (g, length m)"
    using that by (intro sub_at_match) simp_all
  have 5: "sub True (img_pattern x) t b = b" if "search True (img_pattern x) b = None"
    using that by (rule sub_no_match)
  from 1 2 3 4 5 show ?thesis by blast
qed

text \<open>
  The claim as it stands fails: with file 42 both in an image source and in an anchor
  target, the image source is rewritten, the anchor target is not, and the side list is
  empty.
\<close>

theorem image_blocks_anchor_pass:
  "fst (extract_and_download_embedded_files plain_ext (serving None) (Some img_and_anchor)
          files_Y readme_Y initial_state) =
     Some (''<img src='' @ dq @ ''_files/d.png'' @ dq @ ''><a href='' @ dq @
           ''/files/42/download'' @ dq @ ''>doc</a>'')
   \<and> fst (snd (extract_and_download_embedded_files plain_ext (serving None) (Some img_and_anchor)
          files_Y readme_Y initial_state)) = []"
  by code_simp

theorem anchor_pass_only_without_image_witness:
  "set (fst (snd (extract_and_download_embedded_files plain_ext (serving None)
          (Some img_and_other_anchor) files_Y readme_Y initial_state))) \<subseteq> {''* [a](_files/d.png)''}
   \<and> search True (img_pattern ''42'') img_and_anchor \<noteq> None
   \<and> fst (snd (process_file_id plain_ext (serving None) img_and_anchor files_Y readme_Y ''42''
        (img_and_anchor, [], initial_state))) = []
   \<and> fst (process_file_id plain_ext (serving None) img_and_anchor files_Y readme_Y ''42''
        (img_and_anchor, [], initial_state)) =
      ''<img src='' @ dq @ ''_files/d.png'' @ dq @ ''><a href='' @ dq @ ''/files/42/download'' @ dq @
      ''>doc</a>''
   \<and> sub True (img_pattern ''42'') [GroupRef 1, Text ''_files/d.png'', GroupRef 2, GroupRef 3]
        anchor_then_img =
      ''<a href='' @ dq @ ''/files/42/download'' @ dq @ ''>doc</a><img src='' @ dq @
      ''_files/d.png'' @ dq @ ''>''"
proof -
  have ids: "found_file_ids img_and_other_anchor = [''42'', ''5'']" by code_simp
  have img: "search True (img_pattern ''42'') img_and_other_anchor \<noteq> None" by code_simp
  have five: "py_int ''5'' = Some 5" by code_simp
  have entry: "side_entry plain_ext img_and_other_anchor files_Y readme_Y ''5'' (sample_file None 5) =
      ''* [a](_files/d.png)''" by code_simp
  have gf: "get_file (serving None) n = Inr (sample_file None n)" for n
    by (simp add: serving_def sample_course_def)
  have "e = ''* [a](_files/d.png)''"
    if "e \<in> set (fst (snd (extract_and_download_embedded_files plain_ext (serving None)
          (Some img_and_other_anchor) files_Y readme_Y initial_state)))" for e
    using anchor_pass_only_without_image [THEN conjunct1, rule_format, OF that] img five entry
    by (auto simp: ids gf)
  then have 1: "set (fst (snd (extract_and_download_embedded_files plain_ext (serving None)
          (Some img_and_other_anchor) files_Y readme_Y initial_state))) \<subseteq> {''* [a](_files/d.png)''}"
    by blast
  have found: "search True (img_pattern ''42'') img_and_anchor \<noteq> None" by code_simp
  from anchor_pass_only_without_image [THEN conjunct2, THEN conjunct1, THEN mp, OF found,
      THEN conjunct1, of plain_ext "serving None" files_Y readme_Y img_and_anchor "[]" initial_state]
  have 2: "fst (snd (process_file_id plain_ext (serving None) img_and_anchor files_Y readme_Y ''42''
        (img_and_anchor, [], initial_state))) = []" .
  have n42: "py_int ''42'' = Some 42" by code_simp
  have ok: "download_error (sample_file None 42) = None \<or> 42 \<in> DOWNLOADED_FILE_IDS_GLOBAL initial_state"
    by (simp add: sample_file_def)
  have tmpl: "rewrite_template (relpath (path_join files_Y
          (sanitize_filename plain_ext (display_name (sample_file None 42)))) (parent readme_Y)) =
       Inr [GroupRef 1, Text ''_'', Text ''f'', Text ''i'', Text ''l'', Text ''e'', Text ''s'',
            Text ''/'', Text ''d'', Text ''.'', Text ''p'', Text ''n'', Text ''g'',
            GroupRef 2, GroupRef 3]" by code_simp
  have subst: "sub True (img_pattern ''42'')
       [GroupRef 1, Text ''_'', Text ''f'', Text ''i'', Text ''l'', Text ''e'', Text ''s'',
        Text ''/'', Text ''d'', Text ''.'', Text ''p'', Text ''n'', Text ''g'',
        GroupRef 2, GroupRef 3] img_and_anchor =
      ''<img src='' @ dq @ ''_files/d.png'' @ dq @ ''><a href='' @ dq @ ''/files/42/download'' @ dq @
      ''>doc</a>''" by code_simp
  from anchor_pass_only_without_image [THEN conjunct2, THEN conjunct1, THEN mp, OF found,
      THEN conjunct2, THEN conjunct2, rule_format, OF conjI [OF n42 conjI [OF gf conjI [OF ok tmpl]]],
      of img_and_anchor "[]"]
  have 3: "fst (process_file_id plain_ext (serving None) img_and_anchor files_Y readme_Y ''42''
        (img_and_anchor, [], initial_state)) =
      ''<img src='' @ dq @ ''_files/d.png'' @ dq @ ''><a href='' @ dq @ ''/files/42/download'' @ dq @
      ''>doc</a>''" by (simp only: subst)
  let ?anchor = "''<a href='' @ dq @ ''/files/42/download'' @ dq @ ''>doc</a>''"
  let ?tag = "''<img src='' @ dq @ ''/files/42/preview'' @ dq @ ''>''"
  let ?t = "[GroupRef 1, Text ''_files/d.png'', GroupRef 2, GroupRef 3]"
  let ?g = "[(0, ?tag), (3, dq @ ''>''), (2, []), (1, ''<img src='' @ dq)]"
  have before: "\<forall>i < length ?anchor. match_here True (img_pattern ''42'') (drop i (?anchor @ ?tag @ [])) = None"
  proof -
    have "list_all (\<lambda>i. match_here True (img_pattern ''42'') (drop i (?anchor @ ?tag @ [])) = None)
            [0 ..< length ?anchor]" by code_simp
    then show ?thesis
      by (simp only: list_all_iff set_upt atLeastLessThan_iff Ball_def le0 simp_thms)
  qed
  have here: "?tag \<noteq> [] \<and> match_here True (img_pattern ''42'') (?tag @ []) = Some (?g, length ?tag)"
    by code_simp
  have rest: "search True (img_pattern ''42'') [] = None" by code_simp
  have ex: "expand ?t ?g = ''<img src='' @ dq @ ''_files/d.png'' @ dq @ ''>''" by code_simp
  have split: "anchor_then_img = ?anchor @ ?tag @ []" by code_simp
  note t = anchor_pass_only_without_image [THEN conjunct2, THEN conjunct2]
  have "sub True (img_pattern ''42'') ?t (?anchor @ ?tag @ []) =
          ?anchor @ sub True (img_pattern ''42'') ?t (?tag @ [])"
    using t [THEN conjunct1, THEN mp, OF before] .
  also have "sub True (img_pattern ''42'') ?t (?tag @ []) =
          expand ?t ?g @ sub True (img_pattern ''42'') ?t []"
    using t [THEN conjunct2, THEN conjunct1, THEN mp, OF here] .
  also have "sub True (img_pattern ''42'') ?t [] = []"
    using t [THEN conjunct2, THEN conjunct2, THEN mp, OF rest] .
  finally have 4: "sub True (img_pattern ''42'') ?t anchor_then_img =
      ''<a href='' @ dq @ ''/files/42/download'' @ dq @ ''>doc</a><img src='' @ dq @
      ''_files/d.png'' @ dq @ ''>''"
    unfolding split ex by simp
  from 1 found 2 3 4 show ?thesis by blast
qed

subsection \<open>C3: at most one download of an identifier\<close>

text \<open>
  Claim C3. For an identifier in \<open>DOWNLOADED_FILE_IDS_GLOBAL\<close> the fetcher returns the
  path without calling \<open>download\<close>. Neither the fetcher nor the link rewriter ever calls
  \<open>download\<close> for an identifier that was in the set when they started. The rewriter keeps
  the invariant that no identifier has been downloaded twice, and after it has run, a
  second run of it (on the same or on any other fragment) calls \<open>download\<close> for none of the
  identifiers downloaded so far. The invariant holds at the end of every run over any
  courses. A download counts when it has written its file; one that failed is not
  recorded and may be tried again.
\<close>

theorem at_most_one_download:
  "(cf_id f \<in> DOWNLOADED_FILE_IDS_GLOBAL s \<longrightarrow>
      fst (download_canvas_file_object ext f dir s) =
        Some (path_join dir (sanitize_filename ext (display_name f))) \<and>
      download_calls (trace (snd (download_canvas_file_object ext f dir s))) = download_calls (trace s))
   \<and> progress s (snd (download_canvas_file_object ext f dir s))
   \<and> progress s (snd (snd (extract_and_download_embedded_files ext crs html files_subdir readme s)))
   \<and> (at_most_once s \<longrightarrow>
        at_most_once (snd (snd (extract_and_download_embedded_files ext crs html files_subdir readme s))) \<and>
        (\<forall>x \<in> set (downloaded (trace
                (snd (snd (extract_and_download_embedded_files ext crs html files_subdir readme s))))).
         \<forall>y \<in> set (download_calls (new_events
                (snd (snd (extract_and_download_embedded_files ext crs html files_subdir readme s)))
                (snd (snd (extract_and_download_embedded_files ext' crs' html' files_subdir' readme'
                   (snd (snd (extract_and_download_embedded_files ext crs html files_subdir readme s)))))))).
           fst y \<noteq> fst x))
   \<and> at_most_once (process_courses ext untitled get_course output_path courses initial_state)"
proof -
  let ?s1 = "snd (snd (extract_and_download_embedded_files ext crs html files_subdir readme s))"
  let ?s2 = "snd (snd (extract_and_download_embedded_files ext' crs' html' files_subdir' readme' ?s1))"
  have 1: "fst (download_canvas_file_object ext f dir s) =
        Some (path_join dir (sanitize_filename ext (display_name f))) \<and>
      download_calls (trace (snd (download_canvas_file_object ext f dir s))) = download_calls (trace s)"
    if "cf_id f \<in> DOWNLOADED_FILE_IDS_GLOBAL s"
    using that by (simp add: fetch_registered logger_def emit_def download_calls_append)
  have 2: "progress s (snd (download_canvas_file_object ext f dir s))" by (rule progress_fetch)
  have 3: "progress s ?s1" by (rule extract_progress)
  have 4: "at_most_once ?s1" if "at_most_once s" using that by (rule extract_at_most_once)
  have 5: "fst y \<noteq> fst x"
    if "at_most_once s" and x: "x \<in> set (downloaded (trace ?s1))"
      and y: "y \<in> set (download_calls (new_events ?s1 ?s2))" for x y
  proof -
    from 4 [OF that(1)] x have "fst x \<in> DOWNLOADED_FILE_IDS_GLOBAL ?s1"
      by (auto simp: at_most_once_def)
    moreover have "progress ?s1 ?s2" by (rule extract_progress)
    with y have "fst y \<notin> DOWNLOADED_FILE_IDS_GLOBAL ?s1" by (simp add: progress_def)
    ultimately show ?thesis by auto
  qed
  have 6: "at_most_once (process_courses ext untitled get_course output_path courses initial_state)"
    by (rule courses_state(1)) (rule initial_invariants(1))
  from 1 2 3 4 5 6 show ?thesis by blast
qed

theorem at_most_one_download_witness:
  "cf_id (sample_file None 42) \<in> DOWNLOADED_FILE_IDS_GLOBAL after_download
   \<and> at_most_once after_download
   \<and> fst (download_canvas_file_object plain_ext (sample_file None 42) files_Z after_download) =
       Some (path_join files_Z (sanitize_filename plain_ext (display_name (sample_file None 42))))
   \<and> download_calls (trace (snd (download_canvas_file_object plain_ext (sample_file None 42) files_Z
        after_download))) = download_calls (trace after_download)
   \<and> at_most_once (snd (snd (extract_and_download_embedded_files plain_ext (serving None)
        (Some img_and_anchor) files_Y readme_Y after_download)))"
proof -
  have a: "cf_id (sample_file None 42) \<in> DOWNLOADED_FILE_IDS_GLOBAL after_download" by code_simp
  have b: "at_most_once after_download" by code_simp
  from at_most_one_download [of "sample_file None 42" after_download plain_ext files_Z
      "serving None" "Some img_and_anchor" files_Y readme_Y] a b
  show ?thesis by blast
qed

subsection \<open>C4: a reference with a malformed identifier\<close>

text \<open>
  Claim C4, as amended. The scan of line 97 captures digits only, so in every fragment the
  identifiers that are looked up are non-empty strings of digits. A reference whose
  identifier does not begin with a digit, such as \<open>/files/abc\<close>, is not seen by the scan
  at all: a non-empty fragment in which no \<open>/files/\<close> is followed by a digit comes back
  unchanged with an empty side list, and the only effect is the creation of the
  attachments directory. No file handle is asked for, no download is attempted, and
  nothing is logged.
\<close>

theorem malformed_reference_skipped:
  "(\<forall>x \<in> set (found_file_ids h). x \<noteq> [] \<and> list_all is_digit x)
   \<and> (h \<noteq> [] \<and> \<not> numeric_file_ref h \<longrightarrow>
        extract_and_download_embedded_files ext crs (Some h) files_subdir readme s =
          (Some h, [], mkdir files_subdir s)
        \<and> trace (snd (snd (extract_and_download_embedded_files ext crs (Some h) files_subdir readme s))) =
            trace s @ [Mkdir files_subdir])"
proof -
  have 1: "x \<noteq> [] \<and> list_all is_digit x" if "x \<in> set (found_file_ids h)" for x
    using found_file_id_shape [OF that] by (auto simp: list_all_iff)
  have 2: "extract_and_download_embedded_files ext crs (Some h) files_subdir readme s =
          (Some h, [], mkdir files_subdir s)" if "h \<noteq> [] \<and> \<not> numeric_file_ref h"
    using that by (simp add: extract_nonempty found_file_ids_none loop_Nil)
  have 3: "trace (snd (snd (extract_and_download_embedded_files ext crs (Some h) files_subdir readme s))) =
            trace s @ [Mkdir files_subdir]" if "h \<noteq> [] \<and> \<not> numeric_file_ref h"
    unfolding 2 [OF that] by (simp add: mkdir_def emit_def)
  from 1 2 3 show ?thesis by blast
qed

text \<open>
  The claim as it stands fails. For an anchor to \<open>/files/abc\<close> the trace holds the
  \<open>mkdir\<close> and nothing else, so no error has been logged. For an anchor to
  \<open>/files/12abc\<close> the scan takes the identifier to be \<open>12\<close>: file 12 is downloaded and the
  target becomes \<open>_files/d.pngabc\<close>.
\<close>

theorem malformed_reference_not_logged:
  "trace (snd (snd (extract_and_download_embedded_files plain_ext (serving None)
      (Some malformed_anchor) files_Y readme_Y initial_state))) = [Mkdir files_Y]
   \<and> fst (extract_and_download_embedded_files plain_ext (serving None)
      (Some digits_then_letters) files_Y readme_Y initial_state) =
     Some (''<a href='' @ [CHR 0x22] @ ''_files/d.pngabc'' @ [CHR 0x22] @ ''>x</a>'')
   \<and> trace (snd (snd (extract_and_download_embedded_files plain_ext (serving None)
      (Some digits_then_letters) files_Y readme_Y initial_state))) =
     [Mkdir files_Y, Log INFO (Downloading ''d.png'' [''X'', ''Y'', ''_files'', ''d.png'']),
      Download 12 [''X'', ''Y'', ''_files'', ''d.png''] True]"
  by code_simp

theorem malformed_reference_skipped_witness:
  "malformed_anchor \<noteq> [] \<and> \<not> numeric_file_ref malformed_anchor
   \<and> extract_and_download_embedded_files plain_ext (serving None) (Some malformed_anchor)
       files_Y readme_Y initial_state =
     (Some malformed_anchor, [], mkdir files_Y initial_state)
   \<and> trace (snd (snd (extract_and_download_embedded_files plain_ext (serving None)
       (Some malformed_anchor) files_Y readme_Y initial_state))) =
     trace initial_state @ [Mkdir files_Y]"
proof -
  have a: "malformed_anchor \<noteq> []" by code_simp
  have b: "\<not> numeric_file_ref malformed_anchor" by code_simp
  from malformed_reference_skipped [THEN conjunct2, rule_format, OF conjI [OF a b]] a b
  show ?thesis by blast
qed

subsection \<open>C5: one download for each identifier of a fragment\<close>

text \<open>
  Claim C5, as amended. Let the identifiers found in a non-empty fragment denote
  different numbers (no file is referred to under two spellings such as \<open>7\<close> and \<open>07\<close>),
  let none of them be in \<open>DOWNLOADED_FILE_IDS_GLOBAL\<close>, and let the course return for each
  a file handle with that identifier. Then the rewriter calls \<open>download\<close> once for each
  identifier, however many tags refer to it: the identifiers of the calls are those of
  the fragment, and there are as many calls as identifiers.
\<close>

theorem one_download_per_identifier:
  assumes "h \<noteq> []"
    and "distinct (map py_int (found_file_ids h))"
    and "\<forall>x \<in> set (found_file_ids h). \<exists>n f. py_int x = Some n \<and>
           n \<notin> DOWNLOADED_FILE_IDS_GLOBAL s \<and> get_file crs n = Inr f \<and> cf_id f = n"
  shows "map (\<lambda>c. Some (fst c))
           (download_calls (new_events s
              (snd (snd (extract_and_download_embedded_files ext crs (Some h) files_subdir readme s))))) =
         map py_int (found_file_ids h)
       \<and> length (download_calls (new_events s
              (snd (snd (extract_and_download_embedded_files ext crs (Some h) files_subdir readme s))))) =
         length (found_file_ids h)"
proof -
  let ?a = "(h, [] :: string list, mkdir files_subdir s)"
  let ?r = "process_file_ids ext crs h files_subdir readme (found_file_ids h) ?a"
  let ?s' = "snd (snd (extract_and_download_embedded_files ext crs (Some h) files_subdir readme s))"
  have st: "?s' = snd (snd ?r)"
    using assms(1) by (simp add: extract_nonempty Let_def)
  have pre: "\<forall>x \<in> set (found_file_ids h). \<exists>n f. py_int x = Some n \<and>
      n \<notin> DOWNLOADED_FILE_IDS_GLOBAL (snd (snd ?a)) \<and> get_file crs n = Inr f \<and> cf_id f = n"
    using assms(3) by (simp add: mkdir_def emit_def)
  have all: "map (\<lambda>c. Some (fst c)) (download_calls (trace (snd (snd ?r)))) =
      map (\<lambda>c. Some (fst c)) (download_calls (trace (snd (snd ?a)))) @ map py_int (found_file_ids h)"
    using assms(2) pre by (rule loop_downloads)
  have "progress s ?s'" by (rule extract_progress)
  then obtain evs where evs: "trace ?s' = trace s @ evs" by (rule progressE)
  then have new: "new_events s ?s' = evs" by (rule new_events_append)
  have "download_calls (trace (snd (snd ?a))) = download_calls (trace s)"
    by (simp add: mkdir_def emit_def download_calls_append)
  with all have "map (\<lambda>c. Some (fst c)) (download_calls (trace s @ evs)) =
      map (\<lambda>c. Some (fst c)) (download_calls (trace s)) @ map py_int (found_file_ids h)"
    using evs st by simp
  then have eq: "map (\<lambda>c. Some (fst c)) (download_calls evs) = map py_int (found_file_ids h)"
    by (simp add: download_calls_append)
  from map_eq_imp_length_eq [OF eq] eq show ?thesis unfolding new by simp
qed

text \<open>
  The claim as it stands fails on a fragment whose two anchors refer to file 7 as \<open>7\<close> and
  as \<open>07\<close>. When the download fails, \<open>download\<close> is called twice for the one file; when it
  succeeds, it is called once for the two identifiers found.
\<close>

theorem two_spellings_download_calls:
  "found_file_ids two_spellings = [''7'', ''07'']
   \<and> map py_int (found_file_ids two_spellings) = [Some 7, Some 7]
   \<and> download_calls (trace (snd (snd (extract_and_download_embedded_files plain_ext
        (serving (Some OtherException)) (Some two_spellings) files_Y readme_Y initial_state)))) =
      [(7, [''X'', ''Y'', ''_files'', ''d.png'']), (7, [''X'', ''Y'', ''_files'', ''d.png''])]
   \<and> download_calls (trace (snd (snd (extract_and_download_embedded_files plain_ext
        (serving None) (Some two_spellings) files_Y readme_Y initial_state)))) =
      [(7, [''X'', ''Y'', ''_files'', ''d.png''])]"
  by code_simp

theorem one_download_per_identifier_witness:
  "three_tags \<noteq> [] \<and> distinct (map py_int (found_file_ids three_tags))
   \<and> length (download_calls (new_events initial_state
        (snd (snd (extract_and_download_embedded_files plain_ext (serving None) (Some three_tags)
           files_Y readme_Y initial_state))))) = 2"
proof -
  have a: "three_tags \<noteq> []" by code_simp
  have ids: "found_file_ids three_tags = [''6'', ''5'']" by code_simp
  have b: "distinct (map py_int (found_file_ids three_tags))" by code_simp
  have six: "py_int ''6'' = Some 6" and five: "py_int ''5'' = Some 5" by code_simp+
  have c: "\<forall>x \<in> set (found_file_ids three_tags). \<exists>n f. py_int x = Some n \<and>
           n \<notin> DOWNLOADED_FILE_IDS_GLOBAL initial_state \<and>
           get_file (serving None) n = Inr f \<and> cf_id f = n"
    by (simp add: ids six five initial_state_def serving_def sample_course_def sample_file_def)
  from one_download_per_identifier [OF a b c, of plain_ext files_Y readme_Y] a b
  show ?thesis by (simp add: ids)
qed

subsection \<open>C6: the side list has no duplicates\<close>

text \<open>
  Claim C6, as amended. The side list that the rewriter returns never holds an entry
  twice. An identifier found in the fragment has its entry in the side list exactly once,
  however many anchors refer to it, when the image pattern for it finds no match in the
  fragment, the course returns its file handle, the file can be had (its download
  succeeds, or its number is in \<open>DOWNLOADED_FILE_IDS_GLOBAL\<close> already) and its relative path
  makes a replacement template that \<open>re\<close> accepts. The template is accepted whenever the
  rewriter is called as the item renderer calls it, for the attachments directory and the
  document of one module, and the sanitised file name holds no backslash. An identifier is
  what the scan captures: the digits as they are written in the fragment.
\<close>

theorem side_list_one_entry:
  "distinct (fst (snd (extract_and_download_embedded_files ext crs html files_subdir readme s)))
   \<and> (\<forall>h x n f t. html = Some h \<and> x \<in> set (found_file_ids h) \<and> py_int x = Some n \<and>
        get_file crs n = Inr f \<and>
        (download_error f = None \<or> n \<in> DOWNLOADED_FILE_IDS_GLOBAL s) \<and>
        search True (img_pattern x) h = None \<and>
        rewrite_template (relpath (path_join files_subdir (sanitize_filename ext (display_name f)))
          (parent readme)) = Inr t \<longrightarrow>
        count_list (fst (snd (extract_and_download_embedded_files ext crs html files_subdir readme s)))
          (side_entry ext h files_subdir readme x f) = 1)
   \<and> (\<forall>name. backslash \<notin> set name \<longrightarrow>
        rewrite_template (relpath (path_join (path_join module_path ''_files'') name)
          (parent (path_join module_path ''README.md''))) =
        Inr (GroupRef 1 # map (\<lambda>c. Text [c]) (''_files/'' @ name) @ [GroupRef 2, GroupRef 3]))"
proof (intro conjI allI impI)
  show d: "distinct (fst (snd (extract_and_download_embedded_files ext crs html files_subdir readme s)))"
    by (cases rule: extract_cases [where html = html and ext = ext and crs = crs
          and dir = files_subdir and readme = readme and s = s]) simp_all
  fix h x n f t
  assume a: "html = Some h \<and> x \<in> set (found_file_ids h) \<and> py_int x = Some n \<and>
        get_file crs n = Inr f \<and>
        (download_error f = None \<or> n \<in> DOWNLOADED_FILE_IDS_GLOBAL s) \<and>
        search True (img_pattern x) h = None \<and>
        rewrite_template (relpath (path_join files_subdir (sanitize_filename ext (display_name f)))
          (parent readme)) = Inr t"
  let ?a = "(h, [] :: string list, mkdir files_subdir s)"
  have ne: "h \<noteq> []"
  proof
    assume "h = []"
    then have "found_file_ids h = []"
      by (simp add: found_file_ids_def finditer_def match_here_def file_id_pattern_def cat_def)
    with a show False by simp
  qed
  have "download_error f = None \<or> n \<in> DOWNLOADED_FILE_IDS_GLOBAL (snd (snd ?a))"
    using a by (auto simp: mkdir_def emit_def)
  with a have "side_entry ext h files_subdir readme x f \<in>
      set (fst (snd (process_file_ids ext crs h files_subdir readme (found_file_ids h) ?a)))"
    by (intro loop_links_success [where n = n and t = t]) simp_all
  then have "side_entry ext h files_subdir readme x f \<in>
      set (fst (snd (extract_and_download_embedded_files ext crs html files_subdir readme s)))"
    using a ne by (simp add: extract_nonempty Let_def)
  with d show "count_list (fst (snd (extract_and_download_embedded_files ext crs html files_subdir readme s)))
          (side_entry ext h files_subdir readme x f) = 1"
    by (rule distinct_count_one)
next
  fix name assume "backslash \<notin> set name"
  then show "rewrite_template (relpath (path_join (path_join module_path ''_files'') name)
          (parent (path_join module_path ''README.md''))) =
        Inr (GroupRef 1 # map (\<lambda>c. Text [c]) (''_files/'' @ name) @ [GroupRef 2, GroupRef 3])"
    by (rule renderer_template)
qed

text \<open>
  The claim as it stands fails, in each of these fragments with two anchors to one file:
  when an image of the same file is in the fragment; when an image of file 42 is, and the
  anchors are to file 4, because the image pattern for \<open>4\<close> matches the source
  \<open>/files/42\<close>; when the download of the file fails; and when the course does not have the
  file. The side list is empty each time.
\<close>

theorem side_list_entry_missing:
  "length (finditer True (a_pattern ''42'') img_and_two_anchors) = 2
   \<and> fst (snd (extract_and_download_embedded_files plain_ext (serving None)
        (Some img_and_two_anchors) files_Y readme_Y initial_state)) = []
   \<and> found_file_ids img_of_longer_id = [''42'', ''4'']
   \<and> length (finditer True (a_pattern ''4'') img_of_longer_id) = 2
   \<and> fst (snd (extract_and_download_embedded_files plain_ext (serving None)
        (Some img_of_longer_id) files_Y readme_Y initial_state)) = []
   \<and> fst (snd (extract_and_download_embedded_files plain_ext (serving (Some Forbidden))
        (Some twice_anchor) files_Y readme_Y initial_state)) = []
   \<and> fst (snd (extract_and_download_embedded_files plain_ext
        (sample_course (\<lambda>i. Inl ResourceDoesNotExist))
        (Some twice_anchor) files_Y readme_Y initial_state)) = []"
  by code_simp

theorem side_list_one_entry_witness:
  "''5'' \<in> set (found_file_ids twice_anchor)
   \<and> search True (img_pattern ''5'') twice_anchor = None
   \<and> backslash \<notin> set ''d.png''
   \<and> rewrite_template (relpath (path_join (path_join module_Y ''_files'') ''d.png'')
        (parent (path_join module_Y ''README.md''))) =
      Inr (GroupRef 1 # map (\<lambda>c. Text [c]) (''_files/'' @ ''d.png'') @ [GroupRef 2, GroupRef 3])
   \<and> count_list (fst (snd (extract_and_download_embedded_files plain_ext (serving None)
        (Some twice_anchor) files_Y readme_Y initial_state))) ''* [a](_files/d.png)'' = 1"
proof -
  have a: "''5'' \<in> set (found_file_ids twice_anchor)" by code_simp
  have b: "search True (img_pattern ''5'') twice_anchor = None" by code_simp
  have c: "py_int ''5'' = Some 5" by code_simp
  have d: "get_file (serving None) 5 = Inr (sample_file None 5)"
    by (simp add: serving_def sample_course_def)
  have e: "download_error (sample_file None 5) = None" by (simp add: sample_file_def)
  have entry: "side_entry plain_ext twice_anchor files_Y readme_Y ''5'' (sample_file None 5) =
      ''* [a](_files/d.png)''" by code_simp
  have t: "rewrite_template (relpath (path_join files_Y
          (sanitize_filename plain_ext (display_name (sample_file None 5)))) (parent readme_Y)) =
       Inr [GroupRef 1, Text ''_'', Text ''f'', Text ''i'', Text ''l'', Text ''e'', Text ''s'',
            Text ''/'', Text ''d'', Text ''.'', Text ''p'', Text ''n'', Text ''g'',
            GroupRef 2, GroupRef 3]" by code_simp
  have g: "backslash \<notin> set ''d.png''" by code_simp
  note r = side_list_one_entry [THEN conjunct2, THEN conjunct2, rule_format, OF g,
      where module_path = module_Y]
  from side_list_one_entry [THEN conjunct2, THEN conjunct1, rule_format,
      where html = "Some twice_anchor" and h = twice_anchor and x = "''5''" and n = 5
        and crs = "serving None" and f = "sample_file None 5" and s = initial_state
        and ext = plain_ext and files_subdir = files_Y and readme = readme_Y] a b c d e t
  have "count_list (fst (snd (extract_and_download_embedded_files plain_ext (serving None)
        (Some twice_anchor) files_Y readme_Y initial_state)))
        (side_entry plain_ext twice_anchor files_Y readme_Y ''5'' (sample_file None 5)) = 1"
    by blast
  with a b g r show ?thesis unfolding entry by blast
qed

subsection \<open>C7: an item whose content cannot be fetched\<close>

text \<open>
  Claim C7. The item renderer always returns a fragment, and every fragment it returns
  ends with the separator, a line \<open>---\<close> between empty lines. When the call that fetches the
  item's content (\<open>get_page\<close>, \<open>get_file\<close> or \<open>get_assignment\<close>) raises
  \<open>ResourceDoesNotExist\<close> or \<open>Forbidden\<close>, the fragment ends with the sentence that the
  item, named by its title, could not be retrieved, with the cause in brackets, followed
  by the separator.
\<close>

theorem item_failure_notice:
  "suffix ([CHR 0x0A] @ ''---'' @ [CHR 0x0A, CHR 0x0A])
     (fst (process_module_item ext crs item module_path s))
   \<and> (fetch_error crs item = Some ResourceDoesNotExist \<longrightarrow>
        suffix (''*Item '' @ [CHR 0x27] @ (case title item of None \<Rightarrow> ''None'' | Some t \<Rightarrow> t) @
                  [CHR 0x27] @ '' could not be retrieved (Resource not found).*'' @
                  [CHR 0x0A, CHR 0x0A] @ ''---'' @ [CHR 0x0A, CHR 0x0A])
          (fst (process_module_item ext crs item module_path s)))
   \<and> (fetch_error crs item = Some Forbidden \<longrightarrow>
        suffix (''*Item '' @ [CHR 0x27] @ (case title item of None \<Rightarrow> ''None'' | Some t \<Rightarrow> t) @
                  [CHR 0x27] @ '' could not be retrieved (Access forbidden).*'' @
                  [CHR 0x0A, CHR 0x0A] @ ''---'' @ [CHR 0x0A, CHR 0x0A])
          (fst (process_module_item ext crs item module_path s)))"
proof -
  let ?s1 = "mkdir (path_join module_path ''_files'')
               (logger INFO (ProcessingItem (title item) (item_type item)) s)"
  let ?b = "item_body ext crs item (path_join module_path ''_files'')
              (path_join module_path ''README.md'') ?s1"
  let ?out = "fst (process_module_item ext crs item module_path s)"
  have out: "?out = fst ?b @
      (case snd (snd ?b) of
         None \<Rightarrow> []
       | Some ResourceDoesNotExist \<Rightarrow> not_found_notice item
       | Some Forbidden \<Rightarrow> forbidden_notice item
       | Some e \<Rightarrow> error_notice item) @ separator"
    by (simp add: process_module_item_def Let_def split: option.splits exn.splits)
  have sep: "separator = [CHR 0x0A] @ ''---'' @ [CHR 0x0A, CHR 0x0A]"
    by (simp add: separator_def nl_def)
  have 1: "suffix ([CHR 0x0A] @ ''---'' @ [CHR 0x0A, CHR 0x0A]) ?out"
    unfolding out sep by (rule suffix_appendI, rule suffix_appendI) simp
  have 2: "suffix (''*Item '' @ [CHR 0x27] @ (case title item of None \<Rightarrow> ''None'' | Some t \<Rightarrow> t) @
                  [CHR 0x27] @ '' could not be retrieved (Resource not found).*'' @
                  [CHR 0x0A, CHR 0x0A] @ ''---'' @ [CHR 0x0A, CHR 0x0A]) ?out"
    if "fetch_error crs item = Some ResourceDoesNotExist"
    unfolding out item_body_fetch_error [OF that]
    by (rule suffix_appendI) (simp add: not_found_notice_def separator_def nl_def apos_def fmt_def)
  have 3: "suffix (''*Item '' @ [CHR 0x27] @ (case title item of None \<Rightarrow> ''None'' | Some t \<Rightarrow> t) @
                  [CHR 0x27] @ '' could not be retrieved (Access forbidden).*'' @
                  [CHR 0x0A, CHR 0x0A] @ ''---'' @ [CHR 0x0A, CHR 0x0A]) ?out"
    if "fetch_error crs item = Some Forbidden"
    unfolding out item_body_fetch_error [OF that]
    by (rule suffix_appendI) (simp add: forbidden_notice_def separator_def nl_def apos_def fmt_def)
  from 1 2 3 show ?thesis by blast
qed

theorem item_failure_notice_witness:
  "fetch_error (serving None) missing_page = Some ResourceDoesNotExist
   \<and> fetch_error (serving None) closed_assignment = Some Forbidden
   \<and> fst (process_module_item plain_ext (serving None) missing_page module_Y initial_state) =
       ''## Intro'' @ [CHR 0x0A, CHR 0x0A] @ ''*Item '' @ [CHR 0x27] @ ''Intro'' @ [CHR 0x27] @
       '' could not be retrieved (Resource not found).*'' @ [CHR 0x0A, CHR 0x0A] @ ''---'' @
       [CHR 0x0A, CHR 0x0A]
   \<and> fst (process_module_item plain_ext (serving None) closed_assignment module_Y initial_state) =
       ''## Assignment: Essay'' @ [CHR 0x0A, CHR 0x0A] @ ''*Item '' @ [CHR 0x27] @ ''Essay'' @
       [CHR 0x27] @ '' could not be retrieved (Access forbidden).*'' @ [CHR 0x0A, CHR 0x0A] @
       ''---'' @ [CHR 0x0A, CHR 0x0A]
   \<and> suffix (''*Item '' @ [CHR 0x27] @ ''Intro'' @ [CHR 0x27] @
         '' could not be retrieved (Resource not found).*'' @ [CHR 0x0A, CHR 0x0A] @ ''---'' @
         [CHR 0x0A, CHR 0x0A])
       (fst (process_module_item plain_ext (serving None) missing_page module_Y initial_state))
   \<and> suffix (''*Item '' @ [CHR 0x27] @ ''Essay'' @ [CHR 0x27] @
         '' could not be retrieved (Access forbidden).*'' @ [CHR 0x0A, CHR 0x0A] @ ''---'' @
         [CHR 0x0A, CHR 0x0A])
       (fst (process_module_item plain_ext (serving None) closed_assignment module_Y initial_state))"
proof -
  have a: "fetch_error (serving None) missing_page = Some ResourceDoesNotExist" by code_simp
  have b: "fst (process_module_item plain_ext (serving None) missing_page module_Y initial_state) =
       ''## Intro'' @ [CHR 0x0A, CHR 0x0A] @ ''*Item '' @ [CHR 0x27] @ ''Intro'' @ [CHR 0x27] @
       '' could not be retrieved (Resource not found).*'' @ [CHR 0x0A, CHR 0x0A] @ ''---'' @
       [CHR 0x0A, CHR 0x0A]"
    by code_simp
  have c: "fetch_error (serving None) closed_assignment = Some Forbidden" by code_simp
  have d: "fst (process_module_item plain_ext (serving None) closed_assignment module_Y initial_state) =
       ''## Assignment: Essay'' @ [CHR 0x0A, CHR 0x0A] @ ''*Item '' @ [CHR 0x27] @ ''Essay'' @
       [CHR 0x27] @ '' could not be retrieved (Access forbidden).*'' @ [CHR 0x0A, CHR 0x0A] @
       ''---'' @ [CHR 0x0A, CHR 0x0A]"
    by code_simp
  have ta: "title missing_page = Some ''Intro''" by (simp add: missing_page_def)
  have tc: "title closed_assignment = Some ''Essay''" by (simp add: closed_assignment_def)
  from item_failure_notice [of plain_ext "serving None" missing_page module_Y initial_state] a
  have e: "suffix (''*Item '' @ [CHR 0x27] @ ''Intro'' @ [CHR 0x27] @
         '' could not be retrieved (Resource not found).*'' @ [CHR 0x0A, CHR 0x0A] @ ''---'' @
         [CHR 0x0A, CHR 0x0A])
       (fst (process_module_item plain_ext (serving None) missing_page module_Y initial_state))"
    by (simp add: ta)
  from item_failure_notice [of plain_ext "serving None" closed_assignment module_Y initial_state] c
  have f: "suffix (''*Item '' @ [CHR 0x27] @ ''Essay'' @ [CHR 0x27] @
         '' could not be retrieved (Access forbidden).*'' @ [CHR 0x0A, CHR 0x0A] @ ''---'' @
         [CHR 0x0A, CHR 0x0A])
       (fst (process_module_item plain_ext (serving None) closed_assignment module_Y initial_state))"
    by (simp add: tc)
  from a b c d e f show ?thesis by blast
qed

subsection \<open>C8: an empty or absent fragment\<close>

text \<open>
  Claim C8. For an absent fragment (\<open>None\<close>) and for the empty fragment the rewriter
  returns the fragment as it is, with an empty side list, and leaves the state as it is:
  no directory is made, nothing is downloaded, nothing is logged.
\<close>

theorem empty_fragment_untouched:
  "extract_and_download_embedded_files ext crs None files_subdir readme s = (None, [], s)
   \<and> extract_and_download_embedded_files ext crs (Some []) files_subdir readme s = (Some [], [], s)"
  by (simp add: extract_and_download_embedded_files_def)

theorem empty_fragment_untouched_witness:
  "extract_and_download_embedded_files plain_ext (serving None) None files_Y readme_Y initial_state =
     (None, [], initial_state)
   \<and> extract_and_download_embedded_files plain_ext (serving None) (Some []) files_Y readme_Y
       initial_state = (Some [], [], initial_state)"
  by (rule empty_fragment_untouched)

subsection \<open>C9: a failed download\<close>

text \<open>
  Claim C9. When the identifier is not in \<open>DOWNLOADED_FILE_IDS_GLOBAL\<close> and the download
  raises, the fetcher returns \<open>None\<close>, the set and the files on disk are as before, and a
  later call of the fetcher for the same file calls \<open>download\<close> again.
\<close>

theorem failed_download_not_recorded:
  assumes "cf_id f \<notin> DOWNLOADED_FILE_IDS_GLOBAL s" and "download_error f = Some e"
  shows "fst (download_canvas_file_object ext f dir s) = None
    \<and> DOWNLOADED_FILE_IDS_GLOBAL (snd (download_canvas_file_object ext f dir s)) =
        DOWNLOADED_FILE_IDS_GLOBAL s
    \<and> fs_files (snd (download_canvas_file_object ext f dir s)) = fs_files s
    \<and> download_calls (trace (snd (download_canvas_file_object ext f dir'
          (snd (download_canvas_file_object ext f dir s))))) =
        download_calls (trace s) @
          [(cf_id f, path_join dir (sanitize_filename ext (display_name f))),
           (cf_id f, path_join dir' (sanitize_filename ext (display_name f)))]"
  using assms by (simp add: fetch_failed download_calls_append)

theorem failed_download_not_recorded_witness:
  "cf_id (sample_file (Some OtherException) 42) \<notin> DOWNLOADED_FILE_IDS_GLOBAL initial_state
   \<and> download_error (sample_file (Some OtherException) 42) = Some OtherException
   \<and> fst (download_canvas_file_object plain_ext (sample_file (Some OtherException) 42) files_Y
        initial_state) = None
   \<and> DOWNLOADED_FILE_IDS_GLOBAL (snd (download_canvas_file_object plain_ext
        (sample_file (Some OtherException) 42) files_Y initial_state)) =
      DOWNLOADED_FILE_IDS_GLOBAL initial_state"
proof -
  have a: "cf_id (sample_file (Some OtherException) 42) \<notin> DOWNLOADED_FILE_IDS_GLOBAL initial_state"
    by (simp add: sample_file_def initial_state_def)
  have b: "download_error (sample_file (Some OtherException) 42) = Some OtherException"
    by (simp add: sample_file_def)
  from failed_download_not_recorded [OF a b, of plain_ext files_Y files_Y] a b
  show ?thesis by blast
qed

subsection \<open>C10: the attachments directory is made first\<close>

text \<open>
  Claim C10. For every non-empty fragment the first thing the rewriter does is the
  \<open>mkdir\<close> of the attachments directory: the event follows the trace so far, the
  directory and the directories above it are on disk afterwards, so the file system has
  changed if the directory was not there, and when the fragment has no file reference
  this is all that has happened to the state.
\<close>

theorem files_directory_created:
  assumes "h \<noteq> []"
  shows "prefix (trace s @ [Mkdir files_subdir])
           (trace (snd (snd (extract_and_download_embedded_files ext crs (Some h) files_subdir readme s))))
       \<and> fs_dirs (snd (snd (extract_and_download_embedded_files ext crs (Some h) files_subdir readme s))) =
           fs_dirs s \<union> set (prefixes files_subdir)
       \<and> files_subdir \<in> fs_dirs (snd (snd (extract_and_download_embedded_files ext crs (Some h) files_subdir readme s)))
       \<and> (files_subdir \<notin> fs_dirs s \<longrightarrow>
            fs_dirs (snd (snd (extract_and_download_embedded_files ext crs (Some h) files_subdir readme s)))
              \<noteq> fs_dirs s)
       \<and> (found_file_ids h = [] \<longrightarrow>
            snd (snd (extract_and_download_embedded_files ext crs (Some h) files_subdir readme s)) =
              mkdir files_subdir s)"
proof -
  let ?a = "(h, [] :: string list, mkdir files_subdir s)"
  let ?r = "process_file_ids ext crs h files_subdir readme (found_file_ids h) ?a"
  have st: "snd (snd (extract_and_download_embedded_files ext crs (Some h) files_subdir readme s)) = snd (snd ?r)"
    using assms by (simp add: extract_nonempty Let_def)
  have "progress (mkdir files_subdir s) (snd (snd ?r))"
    using loop_progress [of ?a] by simp
  then have "prefix (trace (mkdir files_subdir s)) (trace (snd (snd ?r)))"
    by (simp add: progress_def)
  then have 1: "prefix (trace s @ [Mkdir files_subdir]) (trace (snd (snd ?r)))"
    by (simp add: mkdir_def emit_def)
  have 2: "fs_dirs (snd (snd ?r)) = fs_dirs s \<union> set (prefixes files_subdir)"
    using loop_fs_dirs [of ext crs h files_subdir readme "found_file_ids h" ?a]
    by (simp add: mkdir_def emit_def)
  have 3: "files_subdir \<in> fs_dirs (snd (snd ?r))"
    unfolding 2 by simp
  have 4: "files_subdir \<notin> fs_dirs s \<longrightarrow> fs_dirs (snd (snd ?r)) \<noteq> fs_dirs s"
    using 3 by auto
  have 5: "found_file_ids h = [] \<longrightarrow> snd (snd ?r) = mkdir files_subdir s"
    by (simp add: loop_Nil)
  from 1 2 3 4 5 show ?thesis unfolding st by blast
qed

theorem files_directory_created_witness:
  "''plain text'' \<noteq> [] \<and> found_file_ids ''plain text'' = []
   \<and> files_Y \<notin> fs_dirs initial_state
   \<and> files_Y \<in> fs_dirs (snd (snd (extract_and_download_embedded_files plain_ext (serving None)
        (Some ''plain text'') files_Y readme_Y initial_state)))
   \<and> fs_dirs (snd (snd (extract_and_download_embedded_files plain_ext (serving None)
        (Some ''plain text'') files_Y readme_Y initial_state))) \<noteq> fs_dirs initial_state
   \<and> snd (snd (extract_and_download_embedded_files plain_ext (serving None)
        (Some ''plain text'') files_Y readme_Y initial_state)) = mkdir files_Y initial_state"
proof -
  have a: "''plain text'' \<noteq> []" by simp
  have b: "found_file_ids ''plain text'' = []" by code_simp
  have c: "files_Y \<notin> fs_dirs initial_state" by (simp add: initial_state_def)
  from files_directory_created [OF a, of initial_state files_Y plain_ext "serving None" readme_Y] a b c
  show ?thesis by blast
qed

end
